theory Spec2Isabelle
  imports Complex_Main "HOL-Library.Word"
begin

unbundle bit_operations_syntax

section \<open>Fee model\<close>

text \<open>
  The Python fee function of the integration plan:
  \<^verbatim>\<open>
  def kalshi_fee_cents(price_cents: int) -> int:
      if price_cents > 100 or price_cents == 0:
          return 0
      numerator = 7 * price_cents * (100 - price_cents) + 9999
      return numerator // 10000
  \<close>
  Python integers are unbounded and \<open>//\<close> rounds towards minus infinity, as \<open>div\<close> on
  \<open>int\<close> does.
\<close>

definition kalshi_fee_cents :: "int \<Rightarrow> int" where
  "kalshi_fee_cents price_cents =
     (if price_cents > 100 \<or> price_cents = 0 then 0
      else let numerator = 7 * price_cents * (100 - price_cents) + 9999
           in numerator div 10000)"


text \<open>
  The table computed at start-up by the same plan:
  \<^verbatim>\<open>
  KALSHI_FEE_TABLE = [0] * 101
  for p in range(1, 100):
      numerator = 7 * p * (100 - p) + 9999
      KALSHI_FEE_TABLE[p] = numerator // 10000
  \<close>
  The loop is a fold over \<open>range(1, 100)\<close>; every index it writes is inside the list.
\<close>

definition fee_table_step :: "nat \<Rightarrow> int list \<Rightarrow> int list" where
  "fee_table_step p table =
     (let numerator = 7 * int p * (100 - int p) + 9999
      in table[p := numerator div 10000])"

definition KALSHI_FEE_TABLE :: "int list" where
  "KALSHI_FEE_TABLE = fold fee_table_step [1..<100] (replicate 101 0)"

text \<open>
  The Rust table as the analysis quotes it from \<open>src/types.rs\<close>. Only the first two rows
  (prices 0 to 19) are written out in the source; the remaining 81 entries are elided
  there, so the model is the listed prefix.
  \<^verbatim>\<open>
  // Kalshi fee: ceil(0.07 x P x (1-P)) in cents
  static KALSHI_FEE_TABLE: [u16; 101] = [
      0, 0, 0, 0, 0, 0, 0, 0, 0, 0,      // 0-9
      1, 1, 1, 1, 1, 2, 2, 2, 2, 2,      // 10-19
      // ...
  ];
  \<close>
\<close>

definition KALSHI_FEE_TABLE_rs_listed :: "16 word list" where
  "KALSHI_FEE_TABLE_rs_listed =
     [0, 0, 0, 0, 0, 0, 0, 0, 0, 0,
      1, 1, 1, 1, 1, 2, 2, 2, 2, 2]"

section \<open>In-flight deduplication\<close>

text \<open>
  Python raises \<open>IndexError\<close> on a list index outside \<open>-len .. len - 1\<close>; a negative
  index inside that range counts from the end of the list.
\<close>

datatype py_error = IndexError

definition py_index :: "'a list \<Rightarrow> int \<Rightarrow> nat option" where
  "py_index xs i =
     (if 0 \<le> i \<and> i < int (length xs) then Some (nat i)
      else if - int (length xs) \<le> i \<and> i < 0 then Some (nat (int (length xs) + i))
      else None)"

text \<open>
  \<^verbatim>\<open>
  class InFlightDedupe:
      def __init__(self, num_markets=512):
          self.num_slots = num_markets // 64
          self.bitmask = [0] * self.num_slots
          self.lock = threading.Lock()
  \<close>
  The lock makes every \<open>try_claim\<close> and \<open>release\<close> body atomic, so the object's behaviour
  is that of the calls applied one after the other; the model passes the state explicitly.
  \<open>[0] * n\<close> is the empty list for \<open>n \<le> 0\<close>.
\<close>

record InFlightDedupe =
  num_slots :: int
  bitmask :: "int list"

definition InFlightDedupe_init :: "int \<Rightarrow> InFlightDedupe" where
  "InFlightDedupe_init num_markets =
     (let n = num_markets div 64
      in \<lparr>num_slots = n, bitmask = replicate (nat n) 0\<rparr>)"

text \<open>
  \<^verbatim>\<open>
      def try_claim(self, market_id: int) -> bool:
          slot = market_id // 64
          bit = market_id % 64
          mask = 1 << bit
          with self.lock:
              if self.bitmask[slot] & mask:
                  return False  # Already in-flight
              self.bitmask[slot] |= mask
              return True
  \<close>
  The read \<open>self.bitmask[slot]\<close> is the first access, so an out-of-range slot raises before
  anything is written.
\<close>

definition try_claim :: "InFlightDedupe \<Rightarrow> int \<Rightarrow> py_error + bool \<times> InFlightDedupe" where
  "try_claim d market_id =
     (let slot = market_id div 64;
          bit = market_id mod 64;
          mask = push_bit (nat bit) (1::int)
      in case py_index (bitmask d) slot of
           None \<Rightarrow> Inl IndexError
         | Some k \<Rightarrow>
             if (bitmask d ! k) AND mask \<noteq> 0 then Inr (False, d)
             else Inr (True, d\<lparr>bitmask := (bitmask d)[k := (bitmask d ! k) OR mask]\<rparr>))"

text \<open>
  \<^verbatim>\<open>
      def release(self, market_id: int):
          slot = market_id // 64
          bit = market_id % 64
          mask = 1 << bit
          with self.lock:
              self.bitmask[slot] &= ~mask
  \<close>
\<close>

definition release :: "InFlightDedupe \<Rightarrow> int \<Rightarrow> py_error + InFlightDedupe" where
  "release d market_id =
     (let slot = market_id div 64;
          bit = market_id mod 64;
          mask = push_bit (nat bit) (1::int)
      in case py_index (bitmask d) slot of
           None \<Rightarrow> Inl IndexError
         | Some k \<Rightarrow> Inr (d\<lparr>bitmask := (bitmask d)[k := (bitmask d ! k) AND NOT mask]\<rparr>))"

text \<open>
  A sequence of calls on one object. A call that raises leaves the bitmask as it was (the
  exception comes from the first read) and is recorded as \<open>Raised\<close>.
\<close>

datatype dedupe_op = TryClaim int | Release int

datatype dedupe_out = Claimed bool | Released | Raised py_error

fun op_market :: "dedupe_op \<Rightarrow> int" where
  "op_market (TryClaim m) = m"
| "op_market (Release m) = m"

fun apply_op :: "InFlightDedupe \<Rightarrow> dedupe_op \<Rightarrow> dedupe_out \<times> InFlightDedupe" where
  "apply_op d (TryClaim m) =
     (case try_claim d m of Inl e \<Rightarrow> (Raised e, d) | Inr (b, d') \<Rightarrow> (Claimed b, d'))"
| "apply_op d (Release m) =
     (case release d m of Inl e \<Rightarrow> (Raised e, d) | Inr d' \<Rightarrow> (Released, d'))"

fun run_ops :: "InFlightDedupe \<Rightarrow> dedupe_op list \<Rightarrow> dedupe_out list \<times> InFlightDedupe" where
  "run_ops d [] = ([], d)"
| "run_ops d (x # xs) =
     (let (out, d') = apply_op d x; (outs, d'') = run_ops d' xs in (out # outs, d''))"

text \<open>The answers that the \<open>try_claim\<close> calls on market \<open>m\<close> got, in call order.\<close>

fun claim_results :: "int \<Rightarrow> dedupe_op list \<Rightarrow> dedupe_out list \<Rightarrow> dedupe_out list" where
  "claim_results m (TryClaim m' # ops) (out # outs) =
     (if m' = m then out # claim_results m ops outs else claim_results m ops outs)"
| "claim_results m (Release m' # ops) (out # outs) = claim_results m ops outs"
| "claim_results m ops outs = []"

text \<open>What the claim expects of \<open>n\<close> successive claims of a free market: the first wins.\<close>

fun first_only :: "nat \<Rightarrow> dedupe_out list" where
  "first_only 0 = []"
| "first_only (Suc n) = Claimed True # replicate n (Claimed False)"

text \<open>
  The Rust check quoted from \<open>src/execution.rs\<close>, on the eight 64-bit words of
  \<open>in_flight\<close>:
  \<^verbatim>\<open>
  if market_id < 512 {
      let slot = (market_id / 64) as usize;
      let bit = market_id % 64;
      let mask = 1u64 << bit;
      let prev = self.in_flight[slot].fetch_or(mask, Ordering::AcqRel);
      if prev & mask != 0 {
          return Err("Already in-flight");  // Prevent duplicate orders
      }
  }
  \<close>
  The excerpt does not give the integer type of \<open>market_id\<close>; a market index is not
  negative, and it is a \<open>nat\<close> here. \<open>fetch_or\<close> stores the word with the bit set and returns the previous
  word. Execution goes on past the block when nothing is returned.
\<close>

datatype claim_outcome = AlreadyInFlight | Proceeds

definition in_flight_claim :: "64 word list \<Rightarrow> nat \<Rightarrow> claim_outcome \<times> 64 word list" where
  "in_flight_claim in_flight market_id =
     (if market_id < 512 then
        let slot = market_id div 64;
            bit = market_id mod 64;
            mask = push_bit bit (1::64 word);
            prev = in_flight ! slot;
            in_flight' = in_flight[slot := prev OR mask]
        in if prev AND mask \<noteq> 0 then (AlreadyInFlight, in_flight') else (Proceeds, in_flight')
      else (Proceeds, in_flight))"


text \<open>
  Which ids a bitmask of the given length has a bit for, and whether the bit of a market
  is set. Both are used to state and prove the properties of the calls above.
\<close>

definition in_range :: "InFlightDedupe \<Rightarrow> int \<Rightarrow> bool" where
  "in_range d m = (0 \<le> m \<and> m < 64 * int (length (bitmask d)))"

definition held :: "InFlightDedupe \<Rightarrow> int \<Rightarrow> bool" where
  "held d m = bit (bitmask d ! nat (m div 64)) (nat (m mod 64))"

definition rs_held :: "64 word list \<Rightarrow> nat \<Rightarrow> bool" where
  "rs_held in_flight market_id = bit (in_flight ! (market_id div 64)) (market_id mod 64)"

section \<open>Python floats\<close>

text \<open>
  The circuit breaker and the detector compute with Python floats (IEEE 754 binary64).
  A float is an infinity, a NaN, or a finite value, which is a rational number; the two
  zeros are one value here (they compare equal, and no operation below tells them
  apart). Arithmetic on finite values is the exact result rounded to the nearest double,
  ties to the even significand, with overflow to an infinity; Python's \<open>+\<close>, \<open>-\<close> and
  \<open>*\<close> on floats never raise.
\<close>

datatype pyfloat = Finite rat | PosInf | NegInf | NaN

text \<open>
  The binary exponent \<open>e\<close> of a value, \<open>2^e \<le> |x| < 2^(e+1)\<close>, found by doubling or halving.
  It does not go below -1022, the exponent that all subnormal values share, and the
  search upwards stops at 1024, where every value overflows.
\<close>

fun exp_down :: "nat \<Rightarrow> rat \<Rightarrow> int \<Rightarrow> int" where
  "exp_down 0 x e = e"
| "exp_down (Suc k) x e = (if x < 1 then exp_down k (2 * x) (e - 1) else e)"

fun exp_up :: "nat \<Rightarrow> rat \<Rightarrow> int \<Rightarrow> int" where
  "exp_up 0 x e = e"
| "exp_up (Suc k) x e = (if 2 \<le> x then exp_up k (x / 2) (e + 1) else e)"

definition binade :: "rat \<Rightarrow> int" where
  "binade x = (if \<bar>x\<bar> < 1 then exp_down 1022 \<bar>x\<bar> 0 else exp_up 1024 \<bar>x\<bar> 0)"

definition pow2 :: "int \<Rightarrow> rat" where
  "pow2 k = (if 0 \<le> k then 2 ^ nat k else 1 / 2 ^ nat (- k))"

definition round_half_even :: "rat \<Rightarrow> int" where
  "round_half_even x =
     (let f = \<lfloor>x\<rfloor>; r = x - of_int f
      in if r < 1 / 2 then f else if 1 / 2 < r then f + 1 else if even f then f else f + 1)"

text \<open>
  Rounding to a double: the spacing of doubles in the binade of \<open>x\<close> is \<open>2^(e-52)\<close>, and \<open>x\<close>
  goes to the nearest multiple of it. A result of magnitude \<open>2^1024\<close> or more is an infinity.
  A decimal literal of the source, such as \<open>0.48\<close>, denotes \<open>round_double (48 / 100)\<close>.
\<close>

definition round_double :: "rat \<Rightarrow> pyfloat" where
  "round_double x =
     (let ulp = pow2 (binade x - 52);
          y = of_int (round_half_even (x / ulp)) * ulp
      in if pow2 1024 \<le> y then PosInf else if y \<le> - pow2 1024 then NegInf else Finite y)"

fun fneg :: "pyfloat \<Rightarrow> pyfloat" where
  "fneg (Finite a) = Finite (- a)"
| "fneg PosInf = NegInf"
| "fneg NegInf = PosInf"
| "fneg NaN = NaN"

fun fadd :: "pyfloat \<Rightarrow> pyfloat \<Rightarrow> pyfloat" where
  "fadd (Finite a) (Finite b) = round_double (a + b)"
| "fadd NaN y = NaN"
| "fadd x NaN = NaN"
| "fadd PosInf NegInf = NaN"
| "fadd NegInf PosInf = NaN"
| "fadd PosInf y = PosInf"
| "fadd x PosInf = PosInf"
| "fadd NegInf y = NegInf"
| "fadd x NegInf = NegInf"

definition fsub :: "pyfloat \<Rightarrow> pyfloat \<Rightarrow> pyfloat" where
  "fsub x y = fadd x (fneg y)"

fun fmul :: "pyfloat \<Rightarrow> pyfloat \<Rightarrow> pyfloat" where
  "fmul (Finite a) (Finite b) = round_double (a * b)"
| "fmul NaN y = NaN"
| "fmul x NaN = NaN"
| "fmul (Finite a) PosInf = (if a = 0 then NaN else if 0 < a then PosInf else NegInf)"
| "fmul (Finite a) NegInf = (if a = 0 then NaN else if 0 < a then NegInf else PosInf)"
| "fmul PosInf (Finite b) = (if b = 0 then NaN else if 0 < b then PosInf else NegInf)"
| "fmul NegInf (Finite b) = (if b = 0 then NaN else if 0 < b then NegInf else PosInf)"
| "fmul PosInf PosInf = PosInf"
| "fmul PosInf NegInf = NegInf"
| "fmul NegInf PosInf = NegInf"
| "fmul NegInf NegInf = PosInf"

text \<open>\<open>x < y\<close> on floats: every comparison with a NaN is false.\<close>

fun flt :: "pyfloat \<Rightarrow> pyfloat \<Rightarrow> bool" where
  "flt (Finite a) (Finite b) = (a < b)"
| "flt NaN y = False"
| "flt x NaN = False"
| "flt x NegInf = False"
| "flt PosInf y = False"
| "flt x PosInf = True"
| "flt NegInf y = True"

text \<open>\<open>i < y\<close> for an int \<open>i\<close> and a float \<open>y\<close>: Python compares the two values exactly.\<close>

fun int_lt_float :: "int \<Rightarrow> pyfloat \<Rightarrow> bool" where
  "int_lt_float i (Finite b) = (of_int i < b)"
| "int_lt_float i PosInf = True"
| "int_lt_float i NegInf = False"
| "int_lt_float i NaN = False"

text \<open>The builtin \<open>min(a, b)\<close>: it keeps \<open>a\<close> unless \<open>b < a\<close>.\<close>

definition py_min :: "pyfloat \<Rightarrow> pyfloat \<Rightarrow> pyfloat" where
  "py_min a b = (if flt b a then b else a)"

section \<open>Circuit breaker\<close>

text \<open>
  \<^verbatim>\<open>
  class CircuitBreaker:
      def __init__(self):
          self.max_position_per_market = 50000  # contracts
          self.max_total_position = 100000       # contracts
          self.max_daily_loss = 50.0            # dollars
          self.max_consecutive_errors = 5
          self.cooldown_secs = 60
          self.halted = False
          self.daily_pnl_cents = 0
          self.positions = {}  # {market_id: MarketPosition}
          self.consecutive_errors = 0
  \<close>
  The dictionary \<open>positions\<close> is an association list (keys distinct, as in a dict); its
  values are used as numbers by \<open>can_execute\<close>. \<open>max_daily_loss\<close> is a float in dollars.
\<close>

record CircuitBreaker =
  max_position_per_market :: int
  max_total_position :: int
  max_daily_loss :: pyfloat
  max_consecutive_errors :: int
  cooldown_secs :: int
  halted :: bool
  daily_pnl_cents :: int
  positions :: "(int \<times> int) list"
  consecutive_errors :: int

definition CircuitBreaker_init :: CircuitBreaker where
  "CircuitBreaker_init =
     \<lparr>max_position_per_market = 50000,
      max_total_position = 100000,
      max_daily_loss = Finite 50,
      max_consecutive_errors = 5,
      cooldown_secs = 60,
      halted = False,
      daily_pnl_cents = 0,
      positions = [],
      consecutive_errors = 0\<rparr>"

text \<open>
  Modelled from the spec: \<open>can_execute\<close> calls \<open>self.trip(reason)\<close>, which the source does
  not define. Section 4.5 of the specification says that on a trip the breaker becomes
  Halted and records the reason and a cooldown deadline; the class has the flag \<open>halted\<close>
  and no field for the other two, so the trip sets the flag.
\<close>

definition trip :: "CircuitBreaker \<Rightarrow> string \<Rightarrow> CircuitBreaker" where
  "trip cb reason = cb\<lparr>halted := True\<rparr>"

text \<open>\<open>self.positions.get(market_id, 0)\<close> and \<open>sum(self.positions.values())\<close>.\<close>

definition positions_get :: "(int \<times> int) list \<Rightarrow> int \<Rightarrow> int" where
  "positions_get ps market_id = (case map_of ps market_id of None \<Rightarrow> 0 | Some n \<Rightarrow> n)"

definition positions_total :: "(int \<times> int) list \<Rightarrow> int" where
  "positions_total ps = sum_list (map snd ps)"

text \<open>
  \<^verbatim>\<open>
      async def can_execute(self, market_id, contracts) -> bool:
          if self.halted:
              return False
          # Check position limits
          if self.positions.get(market_id, 0) + contracts > self.max_position_per_market:
              return False
          if sum(self.positions.values()) + contracts > self.max_total_position:
              return False
          # Check daily loss
          if self.daily_pnl_cents < -self.max_daily_loss * 100:
              self.trip("Max daily loss exceeded")
              return False
          return True
  \<close>
  The function returns its answer and the breaker as it leaves it. In
  \<open>-self.max_daily_loss * 100\<close> the float is negated, the int 100 becomes the float
  \<open>100.0\<close>, and the product is rounded; the int \<open>daily_pnl_cents\<close> is compared with it.
\<close>

definition can_execute :: "CircuitBreaker \<Rightarrow> int \<Rightarrow> int \<Rightarrow> bool \<times> CircuitBreaker" where
  "can_execute cb market_id contracts =
     (if halted cb then (False, cb)
      else if positions_get (positions cb) market_id + contracts > max_position_per_market cb
        then (False, cb)
      else if positions_total (positions cb) + contracts > max_total_position cb
        then (False, cb)
      else if int_lt_float (daily_pnl_cents cb) (fmul (fneg (max_daily_loss cb)) (Finite 100))
        then (False, trip cb ''Max daily loss exceeded'')
      else (True, cb))"

text \<open>Successive candidate checks \<open>(market_id, contracts)\<close> on one breaker.\<close>

fun can_execute_seq :: "CircuitBreaker \<Rightarrow> (int \<times> int) list \<Rightarrow> bool list \<times> CircuitBreaker" where
  "can_execute_seq cb [] = ([], cb)"
| "can_execute_seq cb ((market_id, contracts) # rs) =
     (let (ok, cb') = can_execute cb market_id contracts;
          (oks, cb'') = can_execute_seq cb' rs
      in (ok # oks, cb''))"

text \<open>The two position checks of \<open>can_execute\<close>, which come before the daily-loss check.\<close>

definition position_limits_ok :: "CircuitBreaker \<Rightarrow> int \<Rightarrow> int \<Rightarrow> bool" where
  "position_limits_ok cb market_id contracts =
     (positions_get (positions cb) market_id + contracts \<le> max_position_per_market cb \<and>
      positions_total (positions cb) + contracts \<le> max_total_position cb)"







section \<open>Opportunity detection\<close>

text \<open>
  The single-condition detector of the strategy notes:
  \<^verbatim>\<open>
  def detect_single_condition_arbitrage(yes_price, no_price, liquidity):
      sum_price = yes_price + no_price
      # Long arbitrage: Buy both if sum < $1
      if sum_price < 1.00 - min_profit:
          profit_per_dollar = 1.00 - sum_price
          return {
              'type': 'buy_both',
              'position_size': min(liquidity, max_capital),
              'expected_profit': profit_per_dollar * position_size
          }
      # Short arbitrage: Sell both if sum > $1
      elif sum_price > 1.00 + min_profit:
          return {'type': 'sell_both', ...}
  \<close>
  \<open>min_profit\<close>, \<open>max_capital\<close> and \<open>position_size\<close> are names the function reads and does not
  bind: they are parameters here. Prices, sizes and these parameters are Python floats.
  The function returns \<open>None\<close> when neither branch is taken.
\<close>

record detector_globals =
  min_profit :: pyfloat
  max_capital :: pyfloat
  position_size :: pyfloat

datatype arb_signal = BuyBoth pyfloat pyfloat | SellBoth

definition detect_single_condition_arbitrage ::
    "detector_globals \<Rightarrow> pyfloat \<Rightarrow> pyfloat \<Rightarrow> pyfloat \<Rightarrow> arb_signal option" where
  "detect_single_condition_arbitrage g yes_price no_price liquidity =
     (let sum_price = fadd yes_price no_price
      in if flt sum_price (fsub (Finite 1) (min_profit g)) then
           let profit_per_dollar = fsub (Finite 1) sum_price
           in Some (BuyBoth (py_min liquidity (max_capital g))
                      (fmul profit_per_dollar (position_size g)))
         else if flt (fadd (Finite 1) (min_profit g)) sum_price then Some SellBoth
         else None)"

text \<open>
  The cross-platform buffer:
  \<^verbatim>\<open>
  MIN_ARB_SPREAD = 15  # cents
  if profit_cents < MIN_ARB_SPREAD:
      return None  # Skip - insufficient buffer
  \<close>
  The excerpt ends there; \<open>rest\<close> stands for what the enclosing function goes on to return.
\<close>

definition MIN_ARB_SPREAD :: int where
  "MIN_ARB_SPREAD = 15"

definition spread_gate :: "int \<Rightarrow> 'a \<Rightarrow> 'a option" where
  "spread_gate profit_cents rest = (if profit_cents < MIN_ARB_SPREAD then None else Some rest)"

text \<open>
  The detector's rule in the words of the specification (section 4.4), to compare the
  code with: net profit per contract in cents, and the emission condition.
\<close>

definition spec_net_profit :: "(int \<Rightarrow> int) \<Rightarrow> (int \<Rightarrow> int) \<Rightarrow> int \<Rightarrow> int \<Rightarrow> int" where
  "spec_net_profit feeA feeB priceA priceB = 100 - priceA - priceB - feeA priceA - feeB priceB"

definition spec_opportunity ::
    "int \<Rightarrow> (int \<Rightarrow> int) \<Rightarrow> (int \<Rightarrow> int) \<Rightarrow> int \<Rightarrow> int \<Rightarrow> int \<Rightarrow> int \<Rightarrow> bool" where
  "spec_opportunity minProfitThreshold feeA feeB priceA priceB sizeA sizeB =
     (spec_net_profit feeA feeB priceA priceB \<ge> minProfitThreshold \<and> min sizeA sizeB > 0)"


section \<open>Partial fills\<close>











text \<open>
  Modelled from the spec: the position and profit-and-loss Ledger is not in the source.
  Section 3 gives a Position per MatchedMarket a signed contract count per side (YES/NO) and a
  cumulative cost basis, mutated only by the Ledger upon confirmed fills; section 4.7
  gives \<open>recordFill(marketId, venue, side, price, size)\<close>; section 4.6 gives the outcomes
  of a leg (it fills, times out or is rejected); section 7 says that a filled leg is
  always recorded as a position. A market without fills has the zero position.
\<close>

datatype venue = VenueA | VenueB










section \<open>Orderbook state store\<close>

text \<open>
  Modelled from the spec: the Orderbook State Store is not in the source (the source has
  only the Rust bit layout of one book). Section 3 gives a snapshot its best YES and NO
  ask prices, the size at each and a monotonic version; section 4.1 gives the contract
  of \<open>update(venue, marketId, snapshot)\<close>: accepted only if
  \<open>snapshot.version > current.version\<close>, a stale or equal version silently discarded and
  counted as a metric, never an error. The first snapshot of a book has no current
  version to compare with and is accepted.
\<close>

record OrderbookSnapshot =
  yes_ask :: int
  no_ask :: int
  yes_size :: int
  no_size :: int
  version :: nat

record OrderbookStore =
  books :: "venue \<times> int \<Rightarrow> OrderbookSnapshot option"
  stale_discarded :: nat

datatype update_result = Accepted | Discarded

definition update ::
    "OrderbookStore \<Rightarrow> venue \<Rightarrow> int \<Rightarrow> OrderbookSnapshot \<Rightarrow> update_result \<times> OrderbookStore" where
  "update store v marketId snapshot =
     (case books store (v, marketId) of
        None \<Rightarrow> (Accepted, store\<lparr>books := (books store)((v, marketId) \<mapsto> snapshot)\<rparr>)
      | Some current \<Rightarrow>
          if version snapshot > version current
          then (Accepted, store\<lparr>books := (books store)((v, marketId) \<mapsto> snapshot)\<rparr>)
          else (Discarded, store\<lparr>stale_discarded := stale_discarded store + 1\<rparr>))"


section \<open>Properties of the fee model\<close>

lemma length_fold_fee_table: "length (fold fee_table_step xs t) = length t"
  by (induction xs arbitrary: t) (simp_all add: fee_table_step_def Let_def)

lemma fold_fee_table_nth:
  "b \<le> length t \<Longrightarrow> p < length t \<Longrightarrow>
   fold fee_table_step [a..<b] t ! p =
     (if a \<le> p \<and> p < b then (7 * int p * (100 - int p) + 9999) div 10000 else t ! p)"
proof (induction b)
  case 0
  then show ?case by simp
next
  case (Suc b)
  show ?case
  proof (cases "a \<le> b")
    case True
    with Suc show ?thesis
      by (auto simp: fee_table_step_def [of b] Let_def nth_list_update length_fold_fee_table)
  next
    case False
    then show ?thesis by simp
  qed
qed

lemma fee_table_nth:
  assumes "p \<le> 100"
  shows "KALSHI_FEE_TABLE ! p =
           (if 1 \<le> p \<and> p < 100 then (7 * int p * (100 - int p) + 9999) div 10000 else 0)"
  using assms by (simp add: KALSHI_FEE_TABLE_def fold_fee_table_nth)

text \<open>Adding 9999 before the floor division by 10000 rounds up.\<close>

lemma round_up_div:
  fixes n :: int
  shows "(n + 9999) div 10000 = - ((- n) div 10000)"
proof -
  obtain q r where n: "n = 10000 * q + r" and r: "0 \<le> r" "r < 10000"
    using div_mult_mod_eq [of n 10000] pos_mod_sign [of 10000 n] pos_mod_bound [of 10000 n]
    by (metis mult.commute zero_less_numeral)
  show ?thesis
  proof (cases "r = 0")
    case True
    with n show ?thesis by simp
  next
    case False
    with r have r': "0 < r" by simp
    have a: "(n + 9999) div 10000 = q + 1"
      using n r r' by linarith
    have b: "(- n) div 10000 = - q - 1"
      using n r r' by simp
    from a b show ?thesis by simp
  qed
qed

lemma ceiling_div_10000:
  fixes n :: int
  shows "\<lceil>real_of_int n / 10000\<rceil> = (n + 9999) div 10000"
proof -
  have "\<lceil>real_of_int n / 10000\<rceil> = - \<lfloor>real_of_int (- n) / real_of_int 10000\<rfloor>"
    by (simp add: ceiling_def)
  also have "\<dots> = - ((- n) div 10000)"
    by (simp only: floor_divide_of_int_eq)
  also have "\<dots> = (n + 9999) div 10000"
    by (simp only: round_up_div)
  finally show ?thesis .
qed

text \<open>
  The Python table and the Python function agree with each other and with the closed
  form \<open>ceil(7 p (100 - p) / 10000)\<close> at each of the 101 prices.
\<close>

lemma python_fee_table_closed_form:
  assumes "p \<le> 100"
  shows "KALSHI_FEE_TABLE ! p = \<lceil>real_of_int (7 * int p * (100 - int p)) / 10000\<rceil>"
    and "KALSHI_FEE_TABLE ! p = kalshi_fee_cents (int p)"
proof -
  show "KALSHI_FEE_TABLE ! p = kalshi_fee_cents (int p)"
    using assms by (auto simp: fee_table_nth kalshi_fee_cents_def Let_def)
  show "KALSHI_FEE_TABLE ! p = \<lceil>real_of_int (7 * int p * (100 - int p)) / 10000\<rceil>"
  proof (cases "1 \<le> p \<and> p < 100")
    case True
    with assms have "KALSHI_FEE_TABLE ! p = (7 * int p * (100 - int p) + 9999) div 10000"
      by (simp add: fee_table_nth)
    then show ?thesis
      by (simp only: ceiling_div_10000)
  next
    case False
    with assms have "p = 0 \<or> p = 100" by auto
    then show ?thesis
      using assms by (auto simp: fee_table_nth)
  qed
qed

text \<open>
  C3. The claim is that the precomputed fee table equals \<open>ceil(7 p (100 - p) / 10000)\<close>
  at every price and so agrees with \<open>kalshi_fee_cents\<close>. The Python table does (lemma
  \<open>python_fee_table_closed_form\<close>). The entries that the Rust listing writes out do not:
  at a price of 1 cent the listing has 0 where the closed form, the Python function and
  the Python table have 1, and at 15 cents it has 2 where they have 1.
\<close>

theorem rust_fee_table_listing_differs:
  "unat (KALSHI_FEE_TABLE_rs_listed ! 1) = 0 \<and>
   \<lceil>real_of_int (7 * 1 * (100 - 1)) / 10000\<rceil> = 1 \<and>
   kalshi_fee_cents 1 = 1 \<and>
   KALSHI_FEE_TABLE ! 1 = 1 \<and>
   unat (KALSHI_FEE_TABLE_rs_listed ! 15) = 2 \<and>
   \<lceil>real_of_int (7 * 15 * (100 - 15)) / 10000\<rceil> = 1 \<and>
   kalshi_fee_cents 15 = 1 \<and>
   KALSHI_FEE_TABLE ! 15 = 1"
proof -
  have listed: "unat (KALSHI_FEE_TABLE_rs_listed ! 1) = 0" "unat (KALSHI_FEE_TABLE_rs_listed ! 15) = 2"
    by (simp_all add: KALSHI_FEE_TABLE_rs_listed_def)
  have fn: "kalshi_fee_cents 1 = 1" "kalshi_fee_cents 15 = 1"
    by (simp_all add: kalshi_fee_cents_def)
  have table: "KALSHI_FEE_TABLE ! 1 = 1" "KALSHI_FEE_TABLE ! 15 = 1"
    by (simp_all add: fee_table_nth)
  have closed: "\<lceil>real_of_int (7 * 1 * (100 - 1)) / 10000\<rceil> = 1"
      "\<lceil>real_of_int (7 * 15 * (100 - 15)) / 10000\<rceil> = 1"
    by (simp_all only: ceiling_div_10000) simp_all
  from listed fn table closed show ?thesis by simp
qed

lemma fee_bound:
  assumes "0 \<le> p"
  shows "0 \<le> kalshi_fee_cents p \<and> kalshi_fee_cents p \<le> 2"
proof (cases "p > 100 \<or> p = 0")
  case True
  then show ?thesis by (auto simp: kalshi_fee_cents_def)
next
  case False
  then have p: "0 < p" "p \<le> 100" using assms by auto
  have sq: "2500 - p * (100 - p) = (p - 50) * (p - 50)"
    by (simp add: algebra_simps)
  have "0 \<le> (p - 50) * (p - 50)" by simp
  with sq have up: "p * (100 - p) \<le> 2500" by linarith
  have lo: "0 \<le> p * (100 - p)" using p by simp
  have eq: "kalshi_fee_cents p = (7 * (p * (100 - p)) + 9999) div 10000"
    using False by (simp add: kalshi_fee_cents_def Let_def mult.assoc)
  from up lo show ?thesis unfolding eq by linarith
qed

text \<open>
  C10. \<open>kalshi_fee_cents\<close> has a value at every non-negative price (its body has no
  operation that can raise on an integer: comparisons, products, a sum and a floor
  division by the constant 10000); the value is 0 at price 0 and at every price above
  100, and a fee of 0, 1 or 2 cents at every non-negative price.
\<close>

theorem kalshi_fee_cents_outside_range:
  "kalshi_fee_cents 0 = 0 \<and>
   (\<forall>p. 100 < p \<longrightarrow> kalshi_fee_cents p = 0) \<and>
   (\<forall>p. 0 \<le> p \<longrightarrow> 0 \<le> kalshi_fee_cents p \<and> kalshi_fee_cents p \<le> 2)"
  using fee_bound by (simp add: kalshi_fee_cents_def)

theorem kalshi_fee_cents_outside_range_witness:
  "kalshi_fee_cents 0 = 0 \<and> kalshi_fee_cents 101 = 0 \<and> kalshi_fee_cents 100000 = 0 \<and>
   0 \<le> kalshi_fee_cents 50 \<and> kalshi_fee_cents 50 \<le> 2"
proof -
  have "(100::int) < 101" "(100::int) < 100000" "(0::int) \<le> 50" by simp_all
  with kalshi_fee_cents_outside_range show ?thesis by blast
qed


section \<open>Properties of the in-flight deduplication\<close>

lemma py_index_slot:
  "0 \<le> m \<Longrightarrow> m < 64 * int (length xs) \<Longrightarrow> py_index xs (m div 64) = Some (nat (m div 64))"
  by (auto simp: py_index_def pos_imp_zdiv_neg_iff)

lemma py_index_beyond:
  "64 * int (length xs) \<le> m \<Longrightarrow> py_index xs (m div 64) = None"
  by (auto simp: py_index_def)

lemma mask_test: "(x AND 2 ^ n \<noteq> (0::int)) = bit x n"
  using bit_iff_and_push_bit_not_eq_0 [of x n] by simp

lemma slot_lt: "0 \<le> m \<Longrightarrow> m < 64 * int n \<Longrightarrow> nat (m div 64) < n"
  by auto

lemma try_claim_in_range:
  assumes "in_range d m"
  shows "try_claim d m =
    Inr (\<not> held d m,
         if held d m then d
         else d\<lparr>bitmask := (bitmask d)[nat (m div 64) :=
                 (bitmask d ! nat (m div 64)) OR push_bit (nat (m mod 64)) 1]\<rparr>)"
  using assms
  by (simp add: in_range_def try_claim_def Let_def py_index_slot mask_test held_def)

lemma release_in_range:
  assumes "in_range d m"
  shows "release d m =
    Inr (d\<lparr>bitmask := (bitmask d)[nat (m div 64) :=
                 (bitmask d ! nat (m div 64)) AND NOT (push_bit (nat (m mod 64)) 1)]\<rparr>)"
  using assms
  by (simp add: in_range_def release_def Let_def py_index_slot)

text \<open>Two different non-negative ids differ in their slot or in their bit.\<close>

lemma market_split:
  assumes "0 \<le> m" "0 \<le> m'" "m \<noteq> m'"
  shows "nat (m div 64) \<noteq> nat (m' div 64) \<or> nat (m mod 64) \<noteq> nat (m' mod 64)"
proof (rule ccontr)
  assume "\<not> ?thesis"
  moreover have "0 \<le> m div 64" "0 \<le> m' div 64" "0 \<le> m mod 64" "0 \<le> m' mod 64"
    using assms by (simp_all add: pos_imp_zdiv_nonneg_iff)
  ultimately have "m div 64 = m' div 64" "m mod 64 = m' mod 64"
    by (simp_all add: eq_nat_nat_iff)
  then have "m = m'"
    by (metis div_mult_mod_eq)
  with assms show False by simp
qed

lemma held_after_claim:
  assumes "in_range d m" "in_range d m'"
  shows "held (snd (apply_op d (TryClaim m))) m' = (m' = m \<or> held d m')"
proof (cases "m' = m")
  case True
  with assms show ?thesis
    by (auto simp: try_claim_in_range held_def in_range_def bit_or_iff bit_exp_iff slot_lt)
next
  case False
  with assms market_split [of m m']
  show ?thesis
    by (auto simp: try_claim_in_range held_def in_range_def bit_or_iff bit_exp_iff
          bit_1_iff nth_list_update slot_lt)
qed

lemma held_after_release:
  assumes "in_range d m" "in_range d m'"
  shows "held (snd (apply_op d (Release m))) m' = (m' \<noteq> m \<and> held d m')"
proof (cases "m' = m")
  case True
  with assms show ?thesis
    by (auto simp: release_in_range held_def in_range_def bit_and_iff bit_not_iff bit_exp_iff slot_lt)
next
  case False
  with assms market_split [of m m']
  show ?thesis
    by (auto simp: release_in_range held_def in_range_def bit_and_iff bit_not_iff bit_exp_iff
          bit_1_iff nth_list_update slot_lt)
qed

lemma length_apply_op: "length (bitmask (snd (apply_op d x))) = length (bitmask d)"
  by (cases x) (auto simp: try_claim_def release_def Let_def split: option.splits sum.splits)

lemma in_range_apply_op: "in_range (snd (apply_op d x)) m = in_range d m"
  by (simp add: in_range_def length_apply_op)

lemma claim_answer: "in_range d m \<Longrightarrow> fst (apply_op d (TryClaim m)) = Claimed (\<not> held d m)"
  by (simp add: try_claim_in_range)

lemma run_ops_Cons:
  "run_ops d (x # xs) =
     (fst (apply_op d x) # fst (run_ops (snd (apply_op d x)) xs),
      snd (run_ops (snd (apply_op d x)) xs))"
  by (simp add: case_prod_unfold Let_def)

lemma run_ops_append:
  "snd (run_ops d (xs @ ys)) = snd (run_ops (snd (run_ops d xs)) ys)"
  by (induction xs arbitrary: d) (simp_all add: case_prod_unfold Let_def)

lemma length_run_ops: "length (bitmask (snd (run_ops d xs))) = length (bitmask d)"
  by (induction xs arbitrary: d) (simp_all add: case_prod_unfold Let_def length_apply_op)

text \<open>While a market is held and not released, every claim of it is refused.\<close>

lemma claims_while_held:
  assumes "\<forall>x \<in> set ops. in_range d (op_market x)" "in_range d m"
      and "Release m \<notin> set ops" "held d m"
  shows "claim_results m ops (fst (run_ops d ops)) =
         replicate (count_list ops (TryClaim m)) (Claimed False)"
  using assms
proof (induction ops arbitrary: d)
  case Nil
  then show ?case by simp
next
  case (Cons x xs)
  let ?d = "snd (apply_op d x)"
  have rng: "in_range d (op_market x)" using Cons.prems by simp
  have still: "held ?d m"
  proof (cases x)
    case (TryClaim k)
    with rng Cons.prems show ?thesis by (simp add: held_after_claim del: apply_op.simps)
  next
    case (Release k)
    with Cons.prems have "k \<noteq> m" by auto
    with Release rng Cons.prems show ?thesis by (simp add: held_after_release del: apply_op.simps)
  qed
  have IH: "claim_results m xs (fst (run_ops ?d xs)) =
            replicate (count_list xs (TryClaim m)) (Claimed False)"
    using Cons.prems still by (intro Cons.IH) (simp_all add: in_range_apply_op)
  show ?case
  proof (cases x)
    case (TryClaim k)
    show ?thesis
    proof (cases "k = m")
      case True
      with TryClaim Cons.prems have "fst (apply_op d x) = Claimed False"
        by (simp add: claim_answer del: apply_op.simps)
      with TryClaim True IH show ?thesis
        by (simp add: run_ops_Cons del: run_ops.simps apply_op.simps)
    next
      case False
      with TryClaim IH show ?thesis
        by (simp add: run_ops_Cons del: run_ops.simps apply_op.simps)
    qed
  next
    case (Release k)
    with IH show ?thesis
      by (simp add: run_ops_Cons del: run_ops.simps apply_op.simps)
  qed
qed

text \<open>From a state where the market is free, the first claim of it wins and the rest lose.\<close>

lemma claims_from_free:
  assumes "\<forall>x \<in> set ops. in_range d (op_market x)" "in_range d m"
      and "Release m \<notin> set ops" "\<not> held d m"
  shows "claim_results m ops (fst (run_ops d ops)) = first_only (count_list ops (TryClaim m))"
  using assms
proof (induction ops arbitrary: d)
  case Nil
  then show ?case by simp
next
  case (Cons x xs)
  let ?d = "snd (apply_op d x)"
  have rng: "in_range d (op_market x)" using Cons.prems by simp
  have rest: "\<forall>y \<in> set xs. in_range ?d (op_market y)" "in_range ?d m" "Release m \<notin> set xs"
    using Cons.prems by (simp_all add: in_range_apply_op)
  show ?case
  proof (cases "x = TryClaim m")
    case True
    with Cons.prems have ans: "fst (apply_op d x) = Claimed True"
      by (simp add: claim_answer del: apply_op.simps)
    from True Cons.prems have "held ?d m"
      by (simp add: held_after_claim del: apply_op.simps)
    with rest have "claim_results m xs (fst (run_ops ?d xs)) =
            replicate (count_list xs (TryClaim m)) (Claimed False)"
      by (intro claims_while_held)
    with True ans show ?thesis
      by (simp add: run_ops_Cons del: run_ops.simps apply_op.simps)
  next
    case False
    have free: "\<not> held ?d m"
    proof (cases x)
      case (TryClaim k)
      with False have "k \<noteq> m" by simp
      with TryClaim rng Cons.prems show ?thesis
        by (simp add: held_after_claim del: apply_op.simps)
    next
      case (Release k)
      with rng Cons.prems show ?thesis
        by (simp add: held_after_release del: apply_op.simps)
    qed
    with rest have IH: "claim_results m xs (fst (run_ops ?d xs)) =
        first_only (count_list xs (TryClaim m))"
      by (intro Cons.IH)
    from False IH show ?thesis
      by (cases x) (simp_all add: run_ops_Cons del: run_ops.simps apply_op.simps)
  qed
qed

lemma init_512: "length (bitmask (InFlightDedupe_init 512)) = 8"
  by (simp add: InFlightDedupe_init_def Let_def)

lemma init_free: "0 \<le> m \<Longrightarrow> m < 512 \<Longrightarrow> \<not> held (InFlightDedupe_init 512) m"
  by (simp add: InFlightDedupe_init_def Let_def held_def)

lemma free_after_release:
  assumes "\<forall>x \<in> set pre. in_range d (op_market x)" "in_range d m"
      and "pre \<noteq> []" "last pre = Release m"
  shows "\<not> held (snd (run_ops d pre)) m"
proof -
  from assms obtain ys where pre: "pre = ys @ [Release m]"
    by (metis append_butlast_last_id)
  have "in_range (snd (run_ops d ys)) m"
    using assms by (simp add: in_range_def length_run_ops)
  then show ?thesis
    unfolding pre run_ops_append
    by (simp add: held_after_release case_prod_unfold Let_def del: apply_op.simps)
qed


text \<open>
  One step of the Rust check on a market id below 512: the attempt proceeds exactly when
  the market's bit was clear, the bit is set afterwards, and no other market's bit
  changes. A second attempt on the same market is therefore refused.
\<close>

lemma rs_mask_test: "n < 64 \<Longrightarrow> (x AND 2 ^ n \<noteq> (0::64 word)) = bit x n"
  using bit_iff_and_push_bit_not_eq_0 [of x n] by simp

lemma rust_claim_step:
  assumes "market_id < 512" "length in_flight = 8"
  shows "fst (in_flight_claim in_flight market_id)
           = (if rs_held in_flight market_id then AlreadyInFlight else Proceeds)"
    and "rs_held (snd (in_flight_claim in_flight market_id)) market_id"
    and "other < 512 \<Longrightarrow> other \<noteq> market_id \<Longrightarrow>
           rs_held (snd (in_flight_claim in_flight market_id)) other = rs_held in_flight other"
proof -
  have slot: "market_id div 64 < length in_flight" using assms by simp
  have b: "market_id mod 64 < 64" by simp
  show "fst (in_flight_claim in_flight market_id)
           = (if rs_held in_flight market_id then AlreadyInFlight else Proceeds)"
    using assms rs_mask_test [OF b]
    by (simp add: in_flight_claim_def Let_def rs_held_def)
  show "rs_held (snd (in_flight_claim in_flight market_id)) market_id"
    using assms slot
    by (simp add: in_flight_claim_def Let_def rs_held_def bit_or_iff bit_exp_iff possible_bit_word)
  show "rs_held (snd (in_flight_claim in_flight market_id)) other = rs_held in_flight other"
    if "other < 512" "other \<noteq> market_id"
  proof (cases "other div 64 = market_id div 64")
    case True
    with that have "other mod 64 \<noteq> market_id mod 64"
      by (metis div_mult_mod_eq)
    with True assms slot show ?thesis
      by (auto simp: in_flight_claim_def Let_def rs_held_def bit_or_iff bit_exp_iff
            possible_bit_word bit_1_iff)
  next
    case False
    with assms show ?thesis
      by (simp add: in_flight_claim_def Let_def rs_held_def)
  qed
qed

text \<open>
  C1 (amended). On a fresh 512-market object, with every market id of the calls in
  \<open>0..511\<close>: after any calls \<open>pre\<close> that leave market \<open>m\<close> free (none at all, or ending with
  a release of \<open>m\<close>), in every continuation \<open>ops\<close> that does not release \<open>m\<close>, the
  \<open>try_claim\<close> calls on \<open>m\<close> answer True the first time and False every later time,
  however many there are and whatever calls on other markets come between them. A
  release therefore makes the market claimable again.
\<close>

theorem in_flight_first_claim_only:
  assumes valid: "\<forall>x \<in> set (pre @ ops). 0 \<le> op_market x \<and> op_market x < 512"
      and m: "0 \<le> m" "m < 512"
      and free: "pre = [] \<or> last pre = Release m"
      and norel: "Release m \<notin> set ops"
  shows "claim_results m ops (fst (run_ops (snd (run_ops (InFlightDedupe_init 512) pre)) ops))
         = first_only (count_list ops (TryClaim m))"
proof -
  let ?fresh = "InFlightDedupe_init 512"
  let ?d = "snd (run_ops ?fresh pre)"
  have r0: "\<forall>x \<in> set pre. in_range ?fresh (op_market x)" "in_range ?fresh m"
    using valid m by (simp_all add: in_range_def init_512)
  have r: "\<forall>x \<in> set ops. in_range ?d (op_market x)" "in_range ?d m"
    using valid m by (simp_all add: in_range_def length_run_ops init_512)
  have "\<not> held ?d m"
  proof (cases "pre = []")
    case True
    with m show ?thesis by (simp add: init_free)
  next
    case False
    with free r0 show ?thesis by (intro free_after_release) simp_all
  qed
  with r norel show ?thesis by (intro claims_from_free)
qed

text \<open>
  Market 70 is claimed and released, then claimed three times with calls on markets 3 and
  511 in between: the answers are True, False, False.
\<close>

theorem in_flight_first_claim_only_witness:
  "claim_results 70
     [TryClaim 70, TryClaim 3, TryClaim 70, Release 3, TryClaim 511, TryClaim 70]
     (fst (run_ops (snd (run_ops (InFlightDedupe_init 512) [TryClaim 70, TryClaim 3, Release 70]))
        [TryClaim 70, TryClaim 3, TryClaim 70, Release 3, TryClaim 511, TryClaim 70]))
   = [Claimed True, Claimed False, Claimed False]"
  using in_flight_first_claim_only
    [of "[TryClaim 70, TryClaim 3, Release 70]"
        "[TryClaim 70, TryClaim 3, TryClaim 70, Release 3, TryClaim 511, TryClaim 70]" 70]
  by (simp add: numeral_3_eq_3)

text \<open>
  The claim as stated, for every market id, fails at id 512. In Python both of two
  successive \<open>try_claim(512)\<close> calls on a fresh object raise \<open>IndexError\<close>, so the first
  does not return True; in the Rust check both attempts on market 512 go on, so two
  executions of the same market are in flight.
\<close>

theorem in_flight_beyond_512_counterexample:
  "fst (run_ops (InFlightDedupe_init 512) [TryClaim 512, TryClaim 512])
     = [Raised IndexError, Raised IndexError] \<and>
   claim_results 512 [TryClaim 512, TryClaim 512]
     (fst (run_ops (InFlightDedupe_init 512) [TryClaim 512, TryClaim 512])) \<noteq> first_only 2 \<and>
   fst (in_flight_claim (replicate 8 0) 512) = Proceeds \<and>
   fst (in_flight_claim (snd (in_flight_claim (replicate 8 0) 512)) 512) = Proceeds"
  by (simp add: InFlightDedupe_init_def try_claim_def py_index_def Let_def in_flight_claim_def
        numeral_2_eq_2)

text \<open>Which slot the index of an id selects in a bitmask of eight slots.\<close>

lemma py_index_eight:
  "length xs = 8 \<Longrightarrow> py_index xs (m div 64) =
     (if 0 \<le> m \<and> m < 512 then Some (nat (m div 64))
      else if - 512 \<le> m \<and> m < 0 then Some (nat (8 + m div 64))
      else None)"
  by (auto simp: py_index_def)

lemma py_index_alias:
  assumes "length xs = 8" "- 512 \<le> m" "m < 0"
  shows "py_index xs (m div 64) = py_index xs ((m + 512) div 64)"
proof -
  have "(m + 512) div 64 = m div 64 + 8" by simp
  with assms show ?thesis by (auto simp: py_index_def)
qed

text \<open>
  C9 (amended). With the eight slots of the default object, \<open>try_claim\<close> and \<open>release\<close>
  return exactly for the market ids from -512 to 511. For every id of 512 or more the
  slot index is outside the bitmask and both raise \<open>IndexError\<close>, and the Rust check is
  skipped, so that a claim of such a market always proceeds and leaves \<open>in_flight\<close> as it
  was: the at-most-one-in-flight guarantee does not extend to these ids. A negative id
  from -512 to -1 is not refused: the list index counts from the end, and the call does
  exactly what the call on id + 512 does.
\<close>

theorem dedupe_defined_ids:
  assumes "length (bitmask d) = 8"
  shows "((\<exists>b d'. try_claim d m = Inr (b, d')) \<longleftrightarrow> - 512 \<le> m \<and> m < 512) \<and>
         ((\<exists>d'. release d m = Inr d') \<longleftrightarrow> - 512 \<le> m \<and> m < 512) \<and>
         (512 \<le> m \<longrightarrow>
            try_claim d m = Inl IndexError \<and> release d m = Inl IndexError \<and>
            (\<forall>in_flight. in_flight_claim in_flight (nat m) = (Proceeds, in_flight))) \<and>
         (- 512 \<le> m \<and> m < 0 \<longrightarrow>
            try_claim d m = try_claim d (m + 512) \<and> release d m = release d (m + 512))"
proof -
  have wraps: "try_claim d m = try_claim d (m + 512) \<and> release d m = release d (m + 512)"
    if "- 512 \<le> m" "m < 0"
  proof -
    have "(m + 512) mod 64 = m mod 64"
      using mod_mult_self2 [of m 64 8] by simp
    with py_index_alias [OF assms that] show ?thesis
      by (simp add: try_claim_def release_def Let_def)
  qed
  have def1: "(\<exists>b d'. try_claim d m = Inr (b, d')) \<longleftrightarrow> - 512 \<le> m \<and> m < 512"
    using assms by (auto simp: try_claim_def Let_def py_index_eight)
  have def2: "(\<exists>d'. release d m = Inr d') \<longleftrightarrow> - 512 \<le> m \<and> m < 512"
    using assms by (auto simp: release_def Let_def py_index_eight)
  have beyond: "try_claim d m = Inl IndexError \<and> release d m = Inl IndexError \<and>
            (\<forall>in_flight. in_flight_claim in_flight (nat m) = (Proceeds, in_flight))"
    if "512 \<le> m"
    using assms that by (auto simp: try_claim_def release_def Let_def py_index_eight in_flight_claim_def)
  from wraps def1 def2 beyond show ?thesis by blast
qed

theorem dedupe_defined_ids_witness:
  "(\<exists>b d'. try_claim (InFlightDedupe_init 512) 511 = Inr (b, d')) \<and>
   (\<exists>b d'. try_claim (InFlightDedupe_init 512) (- 512) = Inr (b, d')) \<and>
   try_claim (InFlightDedupe_init 512) 512 = Inl IndexError \<and>
   release (InFlightDedupe_init 512) 512 = Inl IndexError \<and>
   in_flight_claim (replicate 8 0) 512 = (Proceeds, replicate 8 0) \<and>
   try_claim (InFlightDedupe_init 512) (- 1) = try_claim (InFlightDedupe_init 512) 511"
proof -
  have len: "length (bitmask (InFlightDedupe_init 512)) = 8"
    by (simp add: InFlightDedupe_init_def)
  have a: "\<exists>b d'. try_claim (InFlightDedupe_init 512) 511 = Inr (b, d')"
    using dedupe_defined_ids [OF len, of 511] by simp
  from dedupe_defined_ids [OF len, of "- 512"]
  have "(\<exists>b d'. try_claim (InFlightDedupe_init 512) (- 512) = Inr (b, d'))
          = (- 512 \<le> (- 512 :: int) \<and> (- 512 :: int) < 512)"
    by blast
  then have b: "\<exists>b d'. try_claim (InFlightDedupe_init 512) (- 512) = Inr (b, d')"
    by simp
  have c: "try_claim (InFlightDedupe_init 512) 512 = Inl IndexError"
      "release (InFlightDedupe_init 512) 512 = Inl IndexError"
      "in_flight_claim (replicate 8 0) 512 = (Proceeds, replicate 8 0)"
    using dedupe_defined_ids [OF len, of 512] by simp_all
  have d: "try_claim (InFlightDedupe_init 512) (- 1) = try_claim (InFlightDedupe_init 512) 511"
    using dedupe_defined_ids [OF len, of "- 1"] by simp
  from a b c d show ?thesis by (intro conjI)
qed

text \<open>
  The claim as stated, that the calls are defined only for ids 0 to 511, fails at id -1:
  on a fresh object \<open>try_claim(-1)\<close> returns True and sets the bit of market 511, and
  \<open>release(-1)\<close> frees market 511 while it is claimed, so that it is claimed a second time.
\<close>

theorem dedupe_negative_id_counterexample:
  "try_claim (InFlightDedupe_init 512) (- 1)
     = Inr (True, \<lparr>num_slots = 8, bitmask = [0, 0, 0, 0, 0, 0, 0, 2 ^ 63]\<rparr>) \<and>
   fst (run_ops (InFlightDedupe_init 512) [TryClaim 511, Release (- 1), TryClaim 511])
     = [Claimed True, Released, Claimed True]"
  by (simp add: InFlightDedupe_init_def try_claim_def release_def py_index_def Let_def
        numeral_eq_Suc)


section \<open>Properties of the float arithmetic\<close>

text \<open>
  Rounding a value of magnitude below 2 gives a finite double within \<open>2^-53\<close> of it: the
  binade is at most 0, so the doubles there are at most \<open>2^-52\<close> apart.
\<close>

lemma exp_down_le: "exp_down k x e \<le> e"
proof (induction k arbitrary: x e)
  case 0
  then show ?case by simp
next
  case (Suc k)
  from Suc [of "2 * x" "e - 1"] show ?case by simp
qed

lemma exp_up_small: "x < 2 \<Longrightarrow> exp_up k x e = e"
  by (cases k) simp_all

lemma binade_small: "\<bar>x\<bar> < 2 \<Longrightarrow> binade x \<le> 0"
  by (simp add: binade_def exp_down_le exp_up_small)

lemma pow2_pos: "0 < pow2 k"
  by (simp add: pow2_def)

lemma pow2_small: "k \<le> 0 \<Longrightarrow> pow2 (k - 52) \<le> 1 / 2 ^ 52"
proof -
  assume k: "k \<le> 0"
  then have "pow2 (k - 52) = 1 / 2 ^ nat (52 - k)" by (simp add: pow2_def)
  moreover have "(2::rat) ^ 52 \<le> 2 ^ nat (52 - k)"
    using k by (intro power_increasing) simp_all
  ultimately show ?thesis by (simp add: frac_le)
qed

lemma round_half_even_error: "\<bar>of_int (round_half_even x) - x\<bar> \<le> 1 / 2"
proof -
  define f where "f = \<lfloor>x\<rfloor>"
  have f: "of_int f \<le> x" "x < of_int f + 1" unfolding f_def by linarith+
  consider "x - of_int f < 1 / 2" | "1 / 2 < x - of_int f" | "x - of_int f = 1 / 2"
    by linarith
  then show ?thesis
  proof cases
    case 1
    then have "round_half_even x = f" by (simp add: round_half_even_def Let_def f_def)
    with 1 f show ?thesis by simp
  next
    case 2
    then have "round_half_even x = f + 1" by (simp add: round_half_even_def Let_def f_def)
    with 2 f show ?thesis by simp
  next
    case 3
    then have "round_half_even x = f \<or> round_half_even x = f + 1"
      by (simp add: round_half_even_def Let_def f_def)
    with 3 show ?thesis by auto
  qed
qed

lemma round_double_near:
  assumes "\<bar>x\<bar> < 2"
  shows "\<exists>r. round_double x = Finite r \<and> \<bar>r - x\<bar> \<le> 1 / 2 ^ 53"
proof -
  define ulp where "ulp = pow2 (binade x - 52)"
  define r where "r = of_int (round_half_even (x / ulp)) * ulp"
  have ulp: "0 < ulp" "ulp \<le> 1 / 2 ^ 52"
    unfolding ulp_def by (rule pow2_pos, rule pow2_small, rule binade_small, rule assms)
  have "r - x = (of_int (round_half_even (x / ulp)) - x / ulp) * ulp"
    using ulp(1) by (simp add: r_def left_diff_distrib)
  then have "\<bar>r - x\<bar> = \<bar>of_int (round_half_even (x / ulp)) - x / ulp\<bar> * ulp"
    using ulp(1) by (simp only: abs_mult abs_of_pos)
  also have "\<dots> \<le> 1 / 2 * ulp"
    using ulp(1) round_half_even_error [of "x / ulp"] by (intro mult_right_mono) simp_all
  also have "\<dots> \<le> 1 / 2 ^ 53"
    using ulp(2) by simp
  finally have near: "\<bar>r - x\<bar> \<le> 1 / 2 ^ 53" .
  then have "\<bar>r\<bar> < 3" using assms by (simp add: abs_if split: if_splits)
  moreover have "(3::rat) \<le> 2 ^ 1024"
  proof -
    have "(2::rat) ^ 2 \<le> 2 ^ 1024" by (intro power_increasing) simp_all
    then show ?thesis by simp
  qed
  ultimately have "\<not> pow2 1024 \<le> r" "\<not> r \<le> - pow2 1024"
    by (simp_all add: pow2_def abs_if split: if_splits)
  then have "round_double x = Finite r"
    by (simp add: round_double_def Let_def ulp_def r_def)
  with near show ?thesis by blast
qed

text \<open>
  Below magnitude 4 the binade is at most 1 and the rounded value is within \<open>2^-52\<close>.
\<close>

lemma exp_up_below_4: "x < 4 \<Longrightarrow> exp_up k x e \<le> e + 1"
  by (cases k) (simp_all add: exp_up_small)

lemma binade_below_4: "\<bar>x\<bar> < 4 \<Longrightarrow> binade x \<le> 1"
  using exp_down_le [of 1022 "\<bar>x\<bar>" 0] exp_up_below_4 [of "\<bar>x\<bar>" 1024 0]
  by (simp add: binade_def)

lemma pow2_below_4: "k \<le> 1 \<Longrightarrow> pow2 (k - 52) \<le> 1 / 2 ^ 51"
proof -
  assume k: "k \<le> 1"
  then have "pow2 (k - 52) = 1 / 2 ^ nat (52 - k)" by (simp add: pow2_def)
  moreover have "(2::rat) ^ 51 \<le> 2 ^ nat (52 - k)"
    using k by (intro power_increasing) simp_all
  ultimately show ?thesis by (simp add: frac_le)
qed

lemma round_double_near_below_4:
  assumes "\<bar>x\<bar> < 4"
  shows "\<exists>r. round_double x = Finite r \<and> \<bar>r - x\<bar> \<le> 1 / 2 ^ 52"
proof -
  define ulp where "ulp = pow2 (binade x - 52)"
  define r where "r = of_int (round_half_even (x / ulp)) * ulp"
  have ulp: "0 < ulp" "ulp \<le> 1 / 2 ^ 51"
    unfolding ulp_def by (rule pow2_pos, rule pow2_below_4, rule binade_below_4, rule assms)
  have "r - x = (of_int (round_half_even (x / ulp)) - x / ulp) * ulp"
    using ulp(1) by (simp add: r_def left_diff_distrib)
  then have "\<bar>r - x\<bar> = \<bar>of_int (round_half_even (x / ulp)) - x / ulp\<bar> * ulp"
    using ulp(1) by (simp only: abs_mult abs_of_pos)
  also have "\<dots> \<le> 1 / 2 * ulp"
    using ulp(1) round_half_even_error [of "x / ulp"] by (intro mult_right_mono) simp_all
  also have "\<dots> \<le> 1 / 2 ^ 52"
    using ulp(2) by simp
  finally have near: "\<bar>r - x\<bar> \<le> 1 / 2 ^ 52" .
  then have "\<bar>r\<bar> < 5" using assms by (simp add: abs_if split: if_splits)
  moreover have "(5::rat) \<le> 2 ^ 1024"
  proof -
    have "(2::rat) ^ 3 \<le> 2 ^ 1024" by (intro power_increasing) simp_all
    then show ?thesis by simp
  qed
  ultimately have "\<not> pow2 1024 \<le> r" "\<not> r \<le> - pow2 1024"
    by (simp_all add: pow2_def abs_if split: if_splits)
  then have "round_double x = Finite r"
    by (simp add: round_double_def Let_def ulp_def r_def)
  with near show ?thesis by blast
qed


text \<open>
  Evaluating \<open>round_double\<close> at a given value: the binade is found by unfolding the
  search, and a result of magnitude below \<open>2^64\<close> has not overflowed.
\<close>

lemma exp_down_numeral:
  "exp_down (numeral k) x e = (if x < 1 then exp_down (pred_numeral k) (2 * x) (e - 1) else e)"
  by (simp add: numeral_eq_Suc)

lemma exp_up_numeral:
  "exp_up (numeral k) x e = (if 2 \<le> x then exp_up (pred_numeral k) (x / 2) (e + 1) else e)"
  by (simp add: numeral_eq_Suc)

lemma round_double_moderate:
  assumes "binade x = e"
      and "y = of_int (round_half_even (x / pow2 (e - 52))) * pow2 (e - 52)"
      and "\<bar>y\<bar> < 2 ^ 64"
  shows "round_double x = Finite y"
proof -
  have "(2::rat) ^ 64 \<le> 2 ^ 1024" by (intro power_increasing) simp_all
  with assms(3) have "\<not> pow2 1024 \<le> y" "\<not> y \<le> - pow2 1024"
    by (simp_all add: pow2_def abs_if split: if_splits)
  with assms(1,2) show ?thesis
    by (simp add: round_double_def Let_def)
qed

lemma floor_rat_numeral:
  "\<lfloor>(numeral a :: rat) / numeral b\<rfloor> = numeral a div numeral b"
  "\<lfloor>- ((numeral a :: rat) / numeral b)\<rfloor> = - numeral a div numeral b"
  using floor_divide_of_int_eq [of "numeral a" "numeral b", where ?'a = rat]
        floor_divide_of_int_eq [of "- numeral a" "numeral b", where ?'a = rat]
  by simp_all

lemmas float_eval = floor_rat_numeral binade_def exp_down_numeral exp_up_numeral pow2_def round_half_even_def Let_def

text \<open>
  The doubles used below: the decimal literals 0.10, 0.25, 0.29, 0.42 and 0.48 of the
  examples, and the sums, differences and products formed from them.
\<close>

lemma double_neg_5000: "round_double (- 5000) = Finite (- 5000)"
  by (rule round_double_moderate [where e = 12]) (simp_all add: float_eval)

lemma double_0_29: "round_double (29 / 100) = Finite (5224175567749775 / 18014398509481984)"
  by (rule round_double_moderate [where e = "- 2"]) (simp_all add: float_eval)

lemma double_floor_0_29: "round_double (- (130604389193744375 / 4503599627370496)) = Finite (- (8162774324609023 / 281474976710656))"
  by (rule round_double_moderate [where e = 4]) (simp_all add: float_eval)

lemma double_0_10: "round_double (1 / 10) = Finite (3602879701896397 / 36028797018963968)"
  by (rule round_double_moderate [where e = "- 4"]) (simp_all add: float_eval)

lemma double_0_42: "round_double (21 / 50) = Finite (7566047373982433 / 18014398509481984)"
  by (rule round_double_moderate [where e = "- 2"]) (simp_all add: float_eval)

lemma double_0_48: "round_double (12 / 25) = Finite (1080863910568919 / 2251799813685248)"
  by (rule round_double_moderate [where e = "- 2"]) (simp_all add: float_eval)

lemma double_sum_42_48: "round_double (16212958658533785 / 18014398509481984) = Finite (2026619832316723 / 2251799813685248)"
  by (rule round_double_moderate [where e = "- 1"]) (simp_all add: float_eval)

lemma double_1_minus_0_10: "round_double (32425917317067571 / 36028797018963968) = Finite (8106479329266893 / 9007199254740992)"
  by (rule round_double_moderate [where e = "- 1"]) (simp_all add: float_eval)

lemma double_1_minus_sum: "round_double (225179981368525 / 2251799813685248) = Finite (225179981368525 / 2251799813685248)"
  by (rule round_double_moderate [where e = "- 4"]) (simp_all add: float_eval)

lemma double_half: "round_double (1 / 2) = Finite (1 / 2)"
  by (rule round_double_moderate [where e = "- 1"]) (simp_all add: float_eval)

lemma double_1_minus_0_48: "round_double (1170935903116329 / 2251799813685248) = Finite (1170935903116329 / 2251799813685248)"
  by (rule round_double_moderate [where e = "- 1"]) (simp_all add: float_eval)

lemma double_50: "round_double 50 = Finite 50"
  by (rule round_double_moderate [where e = 5]) (simp_all add: float_eval)

lemma double_three_quarters: "round_double (3 / 4) = Finite (3 / 4)"
  by (rule round_double_moderate [where e = "- 1"]) (simp_all add: float_eval)

lemma double_quarter: "round_double (1 / 4) = Finite (1 / 4)"
  by (rule round_double_moderate [where e = "- 2"]) (simp_all add: float_eval)

lemma double_three_halves: "round_double (3 / 2) = Finite (3 / 2)"
  by (rule round_double_moderate [where e = 0]) (simp_all add: float_eval)

lemmas double_evals = double_neg_5000 double_0_29 double_floor_0_29 double_0_10 double_0_42 double_0_48 double_sum_42_48 double_1_minus_0_10 double_1_minus_sum double_half double_1_minus_0_48 double_50 double_three_quarters double_quarter double_three_halves

section \<open>Properties of the circuit breaker\<close>

text \<open>
  C5. A halted breaker answers False to every \<open>can_execute\<close>, whatever the market id and
  the number of contracts, and stays as it is.
\<close>

theorem halted_blocks_every_candidate:
  "halted cb \<Longrightarrow> can_execute cb market_id contracts = (False, cb)"
  by (simp add: can_execute_def)

theorem halted_blocks_every_candidate_witness:
  "halted (CircuitBreaker_init\<lparr>halted := True\<rparr>) \<and>
   can_execute (CircuitBreaker_init\<lparr>halted := True\<rparr>) 7 1
     = (False, CircuitBreaker_init\<lparr>halted := True\<rparr>)"
proof -
  have h: "halted (CircuitBreaker_init\<lparr>halted := True\<rparr>)" by simp
  from halted_blocks_every_candidate [OF h, of 7 1] h show ?thesis by simp
qed

text \<open>
  The default floor: \<open>-50.0 * 100\<close> is the float \<open>-5000.0\<close>. With a limit of \<open>0.29\<close> dollars
  the product is rounded to a float just above -29, so a daily figure of -29 cents is
  already below the floor.
\<close>

lemma float_floor_example:
  "int_lt_float (- 29) (fmul (fneg (round_double (29 / 100))) (Finite 100))"
  by (simp add: double_evals)

lemma below_floor_call:
  assumes "int_lt_float (daily_pnl_cents cb) (fmul (fneg (max_daily_loss cb)) (Finite 100))"
  shows "fst (can_execute cb m c) = False"
    and "daily_pnl_cents (snd (can_execute cb m c)) = daily_pnl_cents cb"
    and "max_daily_loss (snd (can_execute cb m c)) = max_daily_loss cb"
  using assms by (simp_all add: can_execute_def trip_def)

lemma below_floor_seq:
  assumes "int_lt_float (daily_pnl_cents cb) (fmul (fneg (max_daily_loss cb)) (Finite 100))"
  shows "fst (can_execute_seq cb reqs) = replicate (length reqs) False"
  using assms
proof (induction reqs arbitrary: cb)
  case Nil
  then show ?case by simp
next
  case (Cons r rs)
  obtain m c where r: "r = (m, c)" by (cases r)
  let ?cb = "snd (can_execute cb m c)"
  have "int_lt_float (daily_pnl_cents ?cb) (fmul (fneg (max_daily_loss ?cb)) (Finite 100))"
    using Cons.prems by (simp add: below_floor_call)
  then have "fst (can_execute_seq ?cb rs) = replicate (length rs) False"
    by (rule Cons.IH)
  with Cons.prems show ?case
    by (simp add: r case_prod_unfold Let_def below_floor_call)
qed

text \<open>
  C4 (amended). While the daily realized profit and loss in cents is strictly below the
  floor \<open>-max_daily_loss * 100\<close>, \<open>can_execute\<close> answers False to every candidate, also in
  any run of later calls. The first call that the two position checks do not refuse
  trips the breaker to Halted (by \<open>trip\<close>, which the source calls and does not define), and
  from then on the breaker answers False to every candidate, even if the daily figure
  and the positions change afterwards; the source has no operation that re-arms it. A
  call that a position check refuses answers False and leaves the breaker as it was.
\<close>

theorem daily_loss_floor_halts:
  assumes "int_lt_float (daily_pnl_cents cb) (fmul (fneg (max_daily_loss cb)) (Finite 100))"
  shows "fst (can_execute cb m c) = False \<and>
         fst (can_execute_seq cb reqs) = replicate (length reqs) False \<and>
         (position_limits_ok cb m c \<longrightarrow>
            halted (snd (can_execute cb m c)) \<and>
            (\<forall>pnl ps m' c'.
               fst (can_execute
                      ((snd (can_execute cb m c))\<lparr>daily_pnl_cents := pnl, positions := ps\<rparr>)
                      m' c') = False)) \<and>
         (\<not> halted cb \<and> \<not> position_limits_ok cb m c \<longrightarrow> can_execute cb m c = (False, cb))"
proof -
  have "halted (snd (can_execute cb m c))" if "position_limits_ok cb m c"
    using that assms by (auto simp: can_execute_def trip_def position_limits_ok_def)
  moreover have "can_execute cb m c = (False, cb)"
    if "\<not> halted cb" "\<not> position_limits_ok cb m c"
    using that by (auto simp: can_execute_def position_limits_ok_def)
  ultimately show ?thesis
    using assms
    by (simp add: below_floor_call below_floor_seq
          can_execute_def [of "_\<lparr>daily_pnl_cents := _, positions := _\<rparr>"])
qed

text \<open>
  With the default floor of -5000 cents: at -5001 the candidate is refused and the
  breaker is halted; at exactly -5000 the candidate is still permitted.
\<close>

theorem daily_loss_floor_halts_witness:
  "int_lt_float (daily_pnl_cents (CircuitBreaker_init\<lparr>daily_pnl_cents := - 5001\<rparr>))
     (fmul (fneg (max_daily_loss (CircuitBreaker_init\<lparr>daily_pnl_cents := - 5001\<rparr>))) (Finite 100)) \<and>
   fst (can_execute (CircuitBreaker_init\<lparr>daily_pnl_cents := - 5001\<rparr>) 7 10) = False \<and>
   fst (can_execute_seq (CircuitBreaker_init\<lparr>daily_pnl_cents := - 5001\<rparr>) [(7, 10), (8, 1)])
     = [False, False] \<and>
   halted (snd (can_execute (CircuitBreaker_init\<lparr>daily_pnl_cents := - 5001\<rparr>) 7 10)) \<and>
   fst (can_execute
          ((snd (can_execute (CircuitBreaker_init\<lparr>daily_pnl_cents := - 5001\<rparr>) 7 10))
             \<lparr>daily_pnl_cents := 0, positions := []\<rparr>) 8 1) = False \<and>
   fst (can_execute (CircuitBreaker_init\<lparr>daily_pnl_cents := - 5000\<rparr>) 7 10) = True"
proof -
  let ?cb = "CircuitBreaker_init\<lparr>daily_pnl_cents := - 5001\<rparr>"
  have below: "int_lt_float (daily_pnl_cents ?cb) (fmul (fneg (max_daily_loss ?cb)) (Finite 100))"
    by (simp add: CircuitBreaker_init_def double_neg_5000)
  have ok: "position_limits_ok ?cb 7 10"
    by (simp add: CircuitBreaker_init_def position_limits_ok_def positions_get_def
          positions_total_def)
  have edge: "fst (can_execute (CircuitBreaker_init\<lparr>daily_pnl_cents := - 5000\<rparr>) 7 10) = True"
    by (simp add: can_execute_def CircuitBreaker_init_def positions_get_def positions_total_def
          double_neg_5000)
  from daily_loss_floor_halts [OF below, of 7 10 "[(7, 10), (8, 1)]"] below ok edge
  show ?thesis by simp
qed

text \<open>
  The claim as stated, that the breaker is Halted before any further candidate is
  permitted and never answers True again, fails when a position check refuses first. At
  -5001 cents with market 7 at its cap of 50000 contracts, \<open>can_execute(7, 1)\<close> answers False
  and the breaker is not halted; when the daily figure is back at 0, \<open>can_execute(8, 1)\<close>
  answers True, and nothing has re-armed the breaker.
\<close>

theorem daily_loss_masked_counterexample:
  "int_lt_float (- 5001) (fmul (fneg (Finite 50)) (Finite 100)) \<and>
   can_execute (CircuitBreaker_init\<lparr>daily_pnl_cents := - 5001, positions := [(7, 50000)]\<rparr>) 7 1
     = (False, CircuitBreaker_init\<lparr>daily_pnl_cents := - 5001, positions := [(7, 50000)]\<rparr>) \<and>
   \<not> halted (CircuitBreaker_init\<lparr>daily_pnl_cents := - 5001, positions := [(7, 50000)]\<rparr>) \<and>
   can_execute (CircuitBreaker_init\<lparr>daily_pnl_cents := 0, positions := [(7, 50000)]\<rparr>) 8 1
     = (True, CircuitBreaker_init\<lparr>daily_pnl_cents := 0, positions := [(7, 50000)]\<rparr>)"
  by (simp add: can_execute_def CircuitBreaker_init_def positions_get_def positions_total_def
        double_neg_5000)










section \<open>Properties of the opportunity detection\<close>

text \<open>
  The buy-both decision is one float comparison. For finite prices and a finite
  \<open>min_profit\<close> whose sum and difference from 1 are of magnitude below 2, each side of the
  comparison is within \<open>2^-53\<close> of its exact value.
\<close>

lemma fsub_Finite: "fsub (Finite a) (Finite b) = round_double (a - b)"
  by (simp add: fsub_def)

lemma emits_iff:
  "(\<exists>s e. detect_single_condition_arbitrage g yes_price no_price liquidity = Some (BuyBoth s e))
     = flt (fadd yes_price no_price) (fsub (Finite 1) (min_profit g))"
  by (simp add: detect_single_condition_arbitrage_def Let_def)

lemma emits_near:
  assumes "\<bar>y + n\<bar> < 2" "\<bar>1 - mp\<bar> < 2"
  shows "mp + 1 / 2 ^ 52 < 1 - y - n \<Longrightarrow>
           flt (fadd (Finite y) (Finite n)) (fsub (Finite 1) (Finite mp))"
    and "1 - y - n < mp - 1 / 2 ^ 52 \<Longrightarrow>
           \<not> flt (fadd (Finite y) (Finite n)) (fsub (Finite 1) (Finite mp))"
proof -
  define h :: rat where "h = 1 / 2 ^ 53"
  have h2: "1 / 2 ^ 52 = 2 * h" by (simp add: h_def)
  obtain s where s: "round_double (y + n) = Finite s" and "\<bar>s - (y + n)\<bar> \<le> h"
    using round_double_near [OF assms(1)] unfolding h_def by blast
  then have sb: "s - (y + n) \<le> h" "y + n - s \<le> h" by (simp_all add: abs_le_iff)
  obtain t where t: "round_double (1 - mp) = Finite t" and "\<bar>t - (1 - mp)\<bar> \<le> h"
    using round_double_near [OF assms(2)] unfolding h_def by blast
  then have tb: "t - (1 - mp) \<le> h" "1 - mp - t \<le> h" by (simp_all add: abs_le_iff)
  have cmp: "flt (fadd (Finite y) (Finite n)) (fsub (Finite 1) (Finite mp)) = (s < t)"
    by (simp add: fsub_Finite s t)
  show "flt (fadd (Finite y) (Finite n)) (fsub (Finite 1) (Finite mp))"
    if "mp + 1 / 2 ^ 52 < 1 - y - n"
  proof -
    from that have "mp + 2 * h < 1 - y - n" by (simp only: h2)
    with sb tb have "s < t" by linarith
    then show ?thesis unfolding cmp .
  qed
  show "\<not> flt (fadd (Finite y) (Finite n)) (fsub (Finite 1) (Finite mp))"
    if "1 - y - n < mp - 1 / 2 ^ 52"
  proof -
    from that have "1 - y - n < mp - 2 * h" by (simp only: h2)
    with sb tb have "\<not> s < t" by linarith
    then show ?thesis unfolding cmp .
  qed
qed


text \<open>
  The same comparison for sums and differences of magnitude below 4, with \<open>2^-51\<close> of
  slack.
\<close>

lemma emits_near_below_4:
  assumes "\<bar>y + n\<bar> < 4" "\<bar>1 - mp\<bar> < 4"
  shows "mp + 1 / 2 ^ 51 < 1 - y - n \<Longrightarrow>
           flt (fadd (Finite y) (Finite n)) (fsub (Finite 1) (Finite mp))"
    and "1 - y - n < mp - 1 / 2 ^ 51 \<Longrightarrow>
           \<not> flt (fadd (Finite y) (Finite n)) (fsub (Finite 1) (Finite mp))"
proof -
  define h :: rat where "h = 1 / 2 ^ 52"
  have h2: "1 / 2 ^ 51 = 2 * h" by (simp add: h_def)
  obtain s where s: "round_double (y + n) = Finite s" and "\<bar>s - (y + n)\<bar> \<le> h"
    using round_double_near_below_4 [OF assms(1)] unfolding h_def by blast
  then have sb: "s - (y + n) \<le> h" "y + n - s \<le> h" by (simp_all add: abs_le_iff)
  obtain t where t: "round_double (1 - mp) = Finite t" and "\<bar>t - (1 - mp)\<bar> \<le> h"
    using round_double_near_below_4 [OF assms(2)] unfolding h_def by blast
  then have tb: "t - (1 - mp) \<le> h" "1 - mp - t \<le> h" by (simp_all add: abs_le_iff)
  have cmp: "flt (fadd (Finite y) (Finite n)) (fsub (Finite 1) (Finite mp)) = (s < t)"
    by (simp add: fsub_Finite s t)
  show "flt (fadd (Finite y) (Finite n)) (fsub (Finite 1) (Finite mp))"
    if "mp + 1 / 2 ^ 51 < 1 - y - n"
  proof -
    from that have "mp + 2 * h < 1 - y - n" by (simp only: h2)
    with sb tb have "s < t" by linarith
    then show ?thesis unfolding cmp .
  qed
  show "\<not> flt (fadd (Finite y) (Finite n)) (fsub (Finite 1) (Finite mp))"
    if "1 - y - n < mp - 1 / 2 ^ 51"
  proof -
    from that have "1 - y - n < mp - 2 * h" by (simp only: h2)
    with sb tb have "\<not> s < t" by linarith
    then show ?thesis unfolding cmp .
  qed
qed

text \<open>
  Prices and threshold of whole cents between 0 and 100, given as the doubles nearest to
  the dollar amounts (the values of the literals \<open>0.42\<close>, \<open>0.10\<close>, ...): a gross profit at
  least one cent away from the threshold is far outside the rounding error.
\<close>

lemma cents_literal:
  assumes "0 \<le> c" "c \<le> 100"
  shows "\<exists>r. round_double (of_int c / 100) = Finite r \<and> \<bar>r - of_int c / 100\<bar> \<le> 1 / 2 ^ 52"
proof -
  have "\<bar>(of_int c :: rat) / 100\<bar> < 4" using assms by simp
  then show ?thesis by (rule round_double_near_below_4)
qed

lemma emits_cents:
  assumes a: "0 \<le> a" "a \<le> 100" and b: "0 \<le> b" "b \<le> 100" and m: "0 \<le> m" "m \<le> 100"
  shows "m < 100 - a - b \<Longrightarrow>
           flt (fadd (round_double (of_int a / 100)) (round_double (of_int b / 100)))
               (fsub (Finite 1) (round_double (of_int m / 100)))"
    and "100 - a - b < m \<Longrightarrow>
           \<not> flt (fadd (round_double (of_int a / 100)) (round_double (of_int b / 100)))
               (fsub (Finite 1) (round_double (of_int m / 100)))"
proof -
  define h :: rat where "h = 1 / 2 ^ 52"
  have hsmall: "0 < h" "5 * h < 1 / 100" by (simp_all add: h_def)
  have h2: "1 / 2 ^ 51 = 2 * h" by (simp add: h_def)
  obtain y where y: "round_double (of_int a / 100) = Finite y" and "\<bar>y - of_int a / 100\<bar> \<le> h"
    using cents_literal [OF a] unfolding h_def by blast
  then have yb: "y - of_int a / 100 \<le> h" "of_int a / 100 - y \<le> h" by (simp_all add: abs_le_iff)
  obtain n where n: "round_double (of_int b / 100) = Finite n" and "\<bar>n - of_int b / 100\<bar> \<le> h"
    using cents_literal [OF b] unfolding h_def by blast
  then have nb: "n - of_int b / 100 \<le> h" "of_int b / 100 - n \<le> h" by (simp_all add: abs_le_iff)
  obtain mp where mp: "round_double (of_int m / 100) = Finite mp"
      and "\<bar>mp - of_int m / 100\<bar> \<le> h"
    using cents_literal [OF m] unfolding h_def by blast
  then have mb: "mp - of_int m / 100 \<le> h" "of_int m / 100 - mp \<le> h"
    by (simp_all add: abs_le_iff)
  have ra: "0 \<le> (of_int a :: rat) / 100" "(of_int a :: rat) / 100 \<le> 1"
    and rb: "0 \<le> (of_int b :: rat) / 100" "(of_int b :: rat) / 100 \<le> 1"
    and rm: "0 \<le> (of_int m :: rat) / 100" "(of_int m :: rat) / 100 \<le> 1"
    using a b m by simp_all
  have rng: "\<bar>y + n\<bar> < 4" "\<bar>1 - mp\<bar> < 4"
    using yb nb mb ra rb rm hsmall by (simp_all add: abs_less_iff)
  show "flt (fadd (round_double (of_int a / 100)) (round_double (of_int b / 100)))
               (fsub (Finite 1) (round_double (of_int m / 100)))"
    if "m < 100 - a - b"
  proof -
    from that have "m + 1 \<le> 100 - a - b" by simp
    then have "(of_int (m + 1) :: rat) \<le> of_int (100 - a - b)" by (simp only: of_int_le_iff)
    then have "(of_int m :: rat) / 100 + 1 / 100 \<le> 1 - of_int a / 100 - of_int b / 100"
      by (simp add: field_simps)
    with yb nb mb hsmall have "mp + 2 * h < 1 - y - n" by linarith
    then have "mp + 1 / 2 ^ 51 < 1 - y - n" by (simp only: h2)
    then have "flt (fadd (Finite y) (Finite n)) (fsub (Finite 1) (Finite mp))"
      by (rule emits_near_below_4(1) [OF rng])
    then show ?thesis unfolding y n mp .
  qed
  show "\<not> flt (fadd (round_double (of_int a / 100)) (round_double (of_int b / 100)))
               (fsub (Finite 1) (round_double (of_int m / 100)))"
    if "100 - a - b < m"
  proof -
    from that have "100 - a - b + 1 \<le> m" by simp
    then have "(of_int (100 - a - b + 1) :: rat) \<le> of_int m" by (simp only: of_int_le_iff)
    then have "1 - (of_int a :: rat) / 100 - of_int b / 100 + 1 / 100 \<le> of_int m / 100"
      by (simp add: field_simps)
    with yb nb mb hsmall have "1 - y - n < mp - 2 * h" by linarith
    then have "1 - y - n < mp - 1 / 2 ^ 51" by (simp only: h2)
    then have "\<not> flt (fadd (Finite y) (Finite n)) (fsub (Finite 1) (Finite mp))"
      by (rule emits_near_below_4(2) [OF rng])
    then show ?thesis unfolding y n mp .
  qed
qed


text \<open>
  C2 (amended). \<open>detect_single_condition_arbitrage\<close> emits a buy-both opportunity exactly
  when the float sum \<open>yes_price + no_price\<close> is strictly below the float \<open>1.00 - min_profit\<close>.
  For prices and a \<open>min_profit\<close> of whole cents between 0 and 100 (each the double nearest
  to its dollar amount) it emits whenever the gross profit \<open>100 - priceA - priceB\<close> in cents
  is strictly above \<open>min_profit\<close> and never when it is strictly below; when the two are equal
  the rounding decides. For any finite prices and \<open>min_profit\<close> of the size of dollar prices
  it emits whenever the gross profit \<open>1 - yes_price - no_price\<close> exceeds \<open>min_profit\<close> by more
  than \<open>2^-52\<close>, and never when it is below \<open>min_profit\<close> by more than \<open>2^-52\<close>. No venue fee
  enters the decision, and the decision is the same for every liquidity, \<open>max_capital\<close> and
  \<open>position_size\<close>; the size emitted is \<open>min(liquidity, max_capital)\<close>. The cross-platform
  gate drops a candidate exactly when \<open>profit_cents < MIN_ARB_SPREAD\<close>, a floor above zero.
\<close>

theorem detector_decision:
  "((\<exists>s e. detect_single_condition_arbitrage g yes_price no_price liquidity = Some (BuyBoth s e))
      \<longleftrightarrow> flt (fadd yes_price no_price) (fsub (Finite 1) (min_profit g))) \<and>
   (\<forall>a b m. 0 \<le> a \<and> a \<le> 100 \<and> 0 \<le> b \<and> b \<le> 100 \<and> 0 \<le> m \<and> m \<le> 100 \<and>
       yes_price = round_double (of_int a / 100) \<and> no_price = round_double (of_int b / 100) \<and>
       min_profit g = round_double (of_int m / 100) \<longrightarrow>
       (m < spec_net_profit (\<lambda>p. 0) (\<lambda>p. 0) a b \<longrightarrow>
          (\<exists>s e. detect_single_condition_arbitrage g yes_price no_price liquidity
                   = Some (BuyBoth s e))) \<and>
       (spec_net_profit (\<lambda>p. 0) (\<lambda>p. 0) a b < m \<longrightarrow>
          \<not> (\<exists>s e. detect_single_condition_arbitrage g yes_price no_price liquidity
                   = Some (BuyBoth s e)))) \<and>
   (\<forall>y n mp. yes_price = Finite y \<and> no_price = Finite n \<and> min_profit g = Finite mp \<and>
       \<bar>y + n\<bar> < 2 \<and> \<bar>1 - mp\<bar> < 2 \<longrightarrow>
       (mp + 1 / 2 ^ 52 < 1 - y - n \<longrightarrow>
          (\<exists>s e. detect_single_condition_arbitrage g yes_price no_price liquidity
                   = Some (BuyBoth s e))) \<and>
       (1 - y - n < mp - 1 / 2 ^ 52 \<longrightarrow>
          \<not> (\<exists>s e. detect_single_condition_arbitrage g yes_price no_price liquidity
                   = Some (BuyBoth s e)))) \<and>
   (\<forall>s e. detect_single_condition_arbitrage g yes_price no_price liquidity = Some (BuyBoth s e)
      \<longrightarrow> s = py_min liquidity (max_capital g)) \<and>
   ((detect_single_condition_arbitrage g yes_price no_price liquidity = None)
      \<longleftrightarrow> (detect_single_condition_arbitrage (g\<lparr>max_capital := c, position_size := p\<rparr>)
             yes_price no_price liquidity' = None)) \<and>
   ((spread_gate profit_cents rest = None) \<longleftrightarrow> profit_cents < MIN_ARB_SPREAD) \<and>
   0 < MIN_ARB_SPREAD"
proof -
  have cents: "(m < spec_net_profit (\<lambda>p. 0) (\<lambda>p. 0) a b \<longrightarrow>
          (\<exists>s e. detect_single_condition_arbitrage g yes_price no_price liquidity
                   = Some (BuyBoth s e))) \<and>
       (spec_net_profit (\<lambda>p. 0) (\<lambda>p. 0) a b < m \<longrightarrow>
          \<not> (\<exists>s e. detect_single_condition_arbitrage g yes_price no_price liquidity
                   = Some (BuyBoth s e)))"
    if "0 \<le> a \<and> a \<le> 100 \<and> 0 \<le> b \<and> b \<le> 100 \<and> 0 \<le> m \<and> m \<le> 100 \<and>
       yes_price = round_double (of_int a / 100) \<and> no_price = round_double (of_int b / 100) \<and>
       min_profit g = round_double (of_int m / 100)" for a b m
  proof -
    from that have r: "0 \<le> a" "a \<le> 100" "0 \<le> b" "b \<le> 100" "0 \<le> m" "m \<le> 100"
      and e: "yes_price = round_double (of_int a / 100)" "no_price = round_double (of_int b / 100)"
        "min_profit g = round_double (of_int m / 100)"
      by simp_all
    have n: "spec_net_profit (\<lambda>p. 0) (\<lambda>p. 0) a b = 100 - a - b"
      by (simp add: spec_net_profit_def)
    show ?thesis
      unfolding emits_iff e n
      using emits_cents [OF r] by blast
  qed
  have near: "(mp + 1 / 2 ^ 52 < 1 - y - n \<longrightarrow>
          (\<exists>s e. detect_single_condition_arbitrage g yes_price no_price liquidity
                   = Some (BuyBoth s e))) \<and>
       (1 - y - n < mp - 1 / 2 ^ 52 \<longrightarrow>
          \<not> (\<exists>s e. detect_single_condition_arbitrage g yes_price no_price liquidity
                   = Some (BuyBoth s e)))"
    if "yes_price = Finite y \<and> no_price = Finite n \<and> min_profit g = Finite mp \<and>
       \<bar>y + n\<bar> < 2 \<and> \<bar>1 - mp\<bar> < 2" for y n mp
    using that emits_near [of y n mp] unfolding emits_iff by auto
  have size: "\<forall>s e. detect_single_condition_arbitrage g yes_price no_price liquidity
                  = Some (BuyBoth s e) \<longrightarrow> s = py_min liquidity (max_capital g)"
    by (simp add: detect_single_condition_arbitrage_def Let_def)
  have indep: "(detect_single_condition_arbitrage g yes_price no_price liquidity = None)
      \<longleftrightarrow> (detect_single_condition_arbitrage (g\<lparr>max_capital := c, position_size := p\<rparr>)
             yes_price no_price liquidity' = None)"
    by (simp add: detect_single_condition_arbitrage_def Let_def)
  have gate: "(spread_gate profit_cents rest = None) \<longleftrightarrow> profit_cents < MIN_ARB_SPREAD"
      "0 < MIN_ARB_SPREAD"
    by (simp_all add: spread_gate_def MIN_ARB_SPREAD_def)
  from emits_iff [of g yes_price no_price liquidity] cents near size indep gate
  show ?thesis by (intro conjI allI impI) blast+
qed

text \<open>
  When the gross profit equals \<open>min_profit\<close> the rounding decides. With prices \<open>0.42\<close> and
  \<open>0.48\<close> and a \<open>min_profit\<close> of \<open>0.10\<close> the gross profit is 10 cents and not above
  \<open>min_profit\<close>, but the float sum is \<open>0.8999999999999999\<close>, below the float \<open>0.9\<close>, and the
  detector emits. With prices \<open>0.25\<close> and \<open>0.25\<close> and a \<open>min_profit\<close> of \<open>0.50\<close> every value is
  exact, \<open>0.5 < 0.5\<close> fails, and the detector returns \<open>None\<close>.
\<close>

lemma boundary_example:
  "detect_single_condition_arbitrage
     \<lparr>min_profit = round_double (10 / 100), max_capital = Finite 100, position_size = Finite 1\<rparr>
     (round_double (42 / 100)) (round_double (48 / 100)) (Finite 80)
   = Some (BuyBoth (Finite 80) (Finite (225179981368525 / 2251799813685248)))"
  "detect_single_condition_arbitrage
     \<lparr>min_profit = round_double (50 / 100), max_capital = Finite 100, position_size = Finite 1\<rparr>
     (round_double (25 / 100)) (round_double (25 / 100)) (Finite 80)
   = None"
  by (simp_all add: detect_single_condition_arbitrage_def Let_def fsub_def py_min_def double_evals)

text \<open>
  Prices of 25 and 25 cents against a \<open>min_profit\<close> of 25 cents: the gross profit of 50 cents
  is above it and the detector emits; prices of 50 and 50 cents leave no gross profit and
  it does not. Prices of 42 and 48 cents leave 10 cents: the detector emits against a
  \<open>min_profit\<close> of 9 cents and not against one of 11 cents. The gate drops 14 cents and
  passes 15.
\<close>

theorem detector_decision_witness:
  "(\<exists>s e. detect_single_condition_arbitrage
            \<lparr>min_profit = Finite (1 / 4), max_capital = Finite 100, position_size = Finite 1\<rparr>
            (Finite (1 / 4)) (Finite (1 / 4)) (Finite 80) = Some (BuyBoth s e)) \<and>
   \<not> (\<exists>s e. detect_single_condition_arbitrage
            \<lparr>min_profit = Finite (1 / 4), max_capital = Finite 100, position_size = Finite 1\<rparr>
            (Finite (1 / 2)) (Finite (1 / 2)) (Finite 80) = Some (BuyBoth s e)) \<and>
   (\<exists>s e. detect_single_condition_arbitrage
            \<lparr>min_profit = round_double (9 / 100), max_capital = Finite 100, position_size = Finite 1\<rparr>
            (round_double (42 / 100)) (round_double (48 / 100)) (Finite 80) = Some (BuyBoth s e)) \<and>
   \<not> (\<exists>s e. detect_single_condition_arbitrage
            \<lparr>min_profit = round_double (11 / 100), max_capital = Finite 100, position_size = Finite 1\<rparr>
            (round_double (42 / 100)) (round_double (48 / 100)) (Finite 80) = Some (BuyBoth s e)) \<and>
   spread_gate 14 () = None \<and> spread_gate 15 () \<noteq> None"
proof -
  let ?g = "\<lparr>min_profit = Finite (1 / 4), max_capital = Finite 100, position_size = Finite 1\<rparr>"
  let ?g9 = "\<lparr>min_profit = round_double (of_int 9 / 100), max_capital = Finite 100,
               position_size = Finite 1\<rparr>"
  let ?g11 = "\<lparr>min_profit = round_double (of_int 11 / 100), max_capital = Finite 100,
               position_size = Finite 1\<rparr>"
  note a = detector_decision [of ?g "Finite (1 / 4)" "Finite (1 / 4)" "Finite 80" "Finite 100" "Finite 1"
      "Finite 80" 14 "()"]
  note b = detector_decision [of ?g "Finite (1 / 2)" "Finite (1 / 2)" "Finite 80" "Finite 100" "Finite 1"
      "Finite 80" 15 "()"]
  note c = detector_decision [of ?g9 "round_double (of_int 42 / 100)" "round_double (of_int 48 / 100)"
      "Finite 80" "Finite 100" "Finite 1" "Finite 80" 15 "()"]
  note d = detector_decision [of ?g11 "round_double (of_int 42 / 100)" "round_double (of_int 48 / 100)"
      "Finite 80" "Finite 100" "Finite 1" "Finite 80" 15 "()"]
  have lo: "(1::rat) / 4 + 1 / 2 ^ 52 < 1 - 1 / 4 - 1 / 4" by simp
  have hi: "(1::rat) - 1 / 2 - 1 / 2 < 1 / 4 - 1 / 2 ^ 52" by simp
  have rng: "\<bar>(1::rat) / 4 + 1 / 4\<bar> < 2" "\<bar>(1::rat) / 2 + 1 / 2\<bar> < 2" "\<bar>(1::rat) - 1 / 4\<bar> < 2"
    by simp_all
  have g: "min_profit ?g = Finite (1 / 4)" by simp
  from a lo rng g
  have e1: "\<exists>s e. detect_single_condition_arbitrage ?g (Finite (1 / 4)) (Finite (1 / 4)) (Finite 80)
      = Some (BuyBoth s e)" by blast
  from b hi rng g
  have e2: "\<not> (\<exists>s e. detect_single_condition_arbitrage ?g (Finite (1 / 2)) (Finite (1 / 2)) (Finite 80)
      = Some (BuyBoth s e))" by blast
  have ranges: "(0::int) \<le> 42" "(42::int) \<le> 100" "(0::int) \<le> 48" "(48::int) \<le> 100"
      "(0::int) \<le> 9" "(9::int) \<le> 100" "(0::int) \<le> 11" "(11::int) \<le> 100"
    by simp_all
  have margin: "9 < spec_net_profit (\<lambda>p. 0) (\<lambda>p. 0) 42 48"
      "spec_net_profit (\<lambda>p. 0) (\<lambda>p. 0) 42 48 < 11"
    by (simp_all add: spec_net_profit_def)
  have g9: "min_profit ?g9 = round_double (of_int 9 / 100)"
    and g11: "min_profit ?g11 = round_double (of_int 11 / 100)" by simp_all
  from c ranges margin(1) g9
  have "\<exists>s e. detect_single_condition_arbitrage ?g9 (round_double (of_int 42 / 100))
      (round_double (of_int 48 / 100)) (Finite 80) = Some (BuyBoth s e)" by blast
  then have e3: "\<exists>s e. detect_single_condition_arbitrage
            \<lparr>min_profit = round_double (9 / 100), max_capital = Finite 100, position_size = Finite 1\<rparr>
            (round_double (42 / 100)) (round_double (48 / 100)) (Finite 80) = Some (BuyBoth s e)"
    by simp
  from d ranges margin(2) g11
  have "\<not> (\<exists>s e. detect_single_condition_arbitrage ?g11 (round_double (of_int 42 / 100))
      (round_double (of_int 48 / 100)) (Finite 80) = Some (BuyBoth s e))" by blast
  then have e4: "\<not> (\<exists>s e. detect_single_condition_arbitrage
            \<lparr>min_profit = round_double (11 / 100), max_capital = Finite 100, position_size = Finite 1\<rparr>
            (round_double (42 / 100)) (round_double (48 / 100)) (Finite 80) = Some (BuyBoth s e))"
    by simp
  have "(14::int) < MIN_ARB_SPREAD" "\<not> (15::int) < MIN_ARB_SPREAD"
    by (simp_all add: MIN_ARB_SPREAD_def)
  with a b have g1: "spread_gate 14 () = None" and g2: "spread_gate 15 () \<noteq> None" by blast+
  from e1 e2 e3 e4 g1 g2 show ?thesis by (intro conjI)
qed

text \<open>
  The claim as stated fails on the detector. With both prices at 25 cents the two Kalshi
  fees are 2 cents each, so the net profit is 46 cents, below a threshold of 48 cents:
  the claim's rule emits nothing, the detector (\<open>0.5 < 1.00 - 0.48\<close>) emits. With a
  liquidity of 0 the matched size is 0: the claim's rule emits nothing, the detector
  emits an opportunity of size 0.
\<close>

theorem detector_fees_counterexample:
  "detect_single_condition_arbitrage
       \<lparr>min_profit = round_double (48 / 100), max_capital = Finite 100, position_size = Finite 100\<rparr>
       (Finite (1 / 4)) (Finite (1 / 4)) (Finite 100) = Some (BuyBoth (Finite 100) (Finite 50)) \<and>
   \<not> spec_opportunity 48 kalshi_fee_cents kalshi_fee_cents 25 25 100 100 \<and>
   detect_single_condition_arbitrage
       \<lparr>min_profit = Finite (1 / 4), max_capital = Finite 100, position_size = Finite 100\<rparr>
       (Finite (1 / 4)) (Finite (1 / 4)) (Finite 0) = Some (BuyBoth (Finite 0) (Finite 50)) \<and>
   \<not> spec_opportunity 25 kalshi_fee_cents kalshi_fee_cents 25 25 0 100"
proof -
  have a: "detect_single_condition_arbitrage
       \<lparr>min_profit = round_double (48 / 100), max_capital = Finite 100, position_size = Finite 100\<rparr>
       (Finite (1 / 4)) (Finite (1 / 4)) (Finite 100) = Some (BuyBoth (Finite 100) (Finite 50))"
    by (simp add: detect_single_condition_arbitrage_def Let_def fsub_def py_min_def double_evals)
  have b: "detect_single_condition_arbitrage
       \<lparr>min_profit = Finite (1 / 4), max_capital = Finite 100, position_size = Finite 100\<rparr>
       (Finite (1 / 4)) (Finite (1 / 4)) (Finite 0) = Some (BuyBoth (Finite 0) (Finite 50))"
    by (simp add: detect_single_condition_arbitrage_def Let_def fsub_def py_min_def double_evals)
  have c: "\<not> spec_opportunity 48 kalshi_fee_cents kalshi_fee_cents 25 25 100 100"
      "\<not> spec_opportunity 25 kalshi_fee_cents kalshi_fee_cents 25 25 0 100"
    by (simp_all add: spec_opportunity_def spec_net_profit_def kalshi_fee_cents_def)
  from a b c show ?thesis by (intro conjI)
qed



section \<open>Properties of partial fills\<close>











section \<open>Properties of the orderbook state store\<close>

text \<open>
  C8. For updates \<open>u1\<close> then \<open>u2\<close> of the same venue and market with
  \<open>u2.version \<le> u1.version\<close>: \<open>u2\<close> is discarded, it is counted in the stale metric, the
  result is not an error, and the books are exactly as \<open>u1\<close> left them; when \<open>u1\<close> was
  accepted the stored snapshot is \<open>u1\<close>. An update is accepted only when the book is new
  or the incoming version is strictly greater than the current one.
\<close>

theorem stale_update_discarded:
  assumes "version u2 \<le> version u1"
  shows "fst (update (snd (update store v marketId u1)) v marketId u2) = Discarded \<and>
         books (snd (update (snd (update store v marketId u1)) v marketId u2))
           = books (snd (update store v marketId u1)) \<and>
         stale_discarded (snd (update (snd (update store v marketId u1)) v marketId u2))
           = stale_discarded (snd (update store v marketId u1)) + 1 \<and>
         (fst (update store v marketId u1) = Accepted \<longrightarrow>
            books (snd (update (snd (update store v marketId u1)) v marketId u2)) (v, marketId)
              = Some u1) \<and>
         (fst (update store v marketId u1) = Accepted \<longrightarrow>
            (case books store (v, marketId) of
               None \<Rightarrow> True
             | Some current \<Rightarrow> version current < version u1))"
  using assms
  by (auto simp: update_def split: option.splits)

text \<open>Version 5 is stored in an empty store; version 5 again, and version 3, change nothing.\<close>

theorem stale_update_discarded_witness:
  "fst (update (snd (update \<lparr>books = Map.empty, stale_discarded = 0\<rparr> VenueA 3
           \<lparr>yes_ask = 45, no_ask = 56, yes_size = 100, no_size = 80, version = 5\<rparr>)) VenueA 3
           \<lparr>yes_ask = 44, no_ask = 57, yes_size = 10, no_size = 10, version = 5\<rparr>) = Discarded \<and>
   books (snd (update (snd (update \<lparr>books = Map.empty, stale_discarded = 0\<rparr> VenueA 3
           \<lparr>yes_ask = 45, no_ask = 56, yes_size = 100, no_size = 80, version = 5\<rparr>)) VenueA 3
           \<lparr>yes_ask = 44, no_ask = 57, yes_size = 10, no_size = 10, version = 5\<rparr>)) (VenueA, 3)
     = Some \<lparr>yes_ask = 45, no_ask = 56, yes_size = 100, no_size = 80, version = 5\<rparr> \<and>
   books (snd (update (snd (update \<lparr>books = Map.empty, stale_discarded = 0\<rparr> VenueA 3
           \<lparr>yes_ask = 45, no_ask = 56, yes_size = 100, no_size = 80, version = 5\<rparr>)) VenueA 3
           \<lparr>yes_ask = 40, no_ask = 50, yes_size = 1, no_size = 1, version = 3\<rparr>)) (VenueA, 3)
     = Some \<lparr>yes_ask = 45, no_ask = 56, yes_size = 100, no_size = 80, version = 5\<rparr>"
proof -
  let ?s = "\<lparr>books = Map.empty, stale_discarded = 0\<rparr>"
  let ?u1 = "\<lparr>yes_ask = 45, no_ask = 56, yes_size = 100, no_size = 80, version = 5\<rparr>"
  let ?u2 = "\<lparr>yes_ask = 44, no_ask = 57, yes_size = 10, no_size = 10, version = 5\<rparr>"
  let ?u3 = "\<lparr>yes_ask = 40, no_ask = 50, yes_size = 1, no_size = 1, version = 3\<rparr>"
  have v2: "version ?u2 \<le> version ?u1" and v3: "version ?u3 \<le> version ?u1"
    by simp_all
  have acc: "fst (update ?s VenueA 3 ?u1) = Accepted"
    by (simp add: update_def)
  note equal = stale_update_discarded [OF v2, of ?s VenueA 3]
  note older = stale_update_discarded [OF v3, of ?s VenueA 3]
  from equal have d: "fst (update (snd (update ?s VenueA 3 ?u1)) VenueA 3 ?u2) = Discarded"
    by (rule conjunct1)
  from equal acc
  have b2: "books (snd (update (snd (update ?s VenueA 3 ?u1)) VenueA 3 ?u2)) (VenueA, 3) = Some ?u1"
    by blast
  from older acc
  have b3: "books (snd (update (snd (update ?s VenueA 3 ?u1)) VenueA 3 ?u3)) (VenueA, 3) = Some ?u1"
    by blast
  from d b2 b3 show ?thesis by (intro conjI)
qed

end
